theory Spec2Isabelle
  imports Complex_Main "HOL-Library.Multiset"
begin

section \<open>Host-language values\<close>

text \<open>
  A JavaScript number is a finite value or one of NaN, Infinity, -Infinity. Finite values are
  modelled as reals: the rounding and the overflow of IEEE doubles are outside this model.
  The three non-finite values are kept apart from the finite ones because the code tests for
  them (\<^verbatim>\<open>Number.isFinite\<close>); they are not told apart from each other, since no
  test in the modelled code does.
\<close>

datatype number = Finite real | NotFinite

datatype json =
    JNull
  | JBool bool
  | JNum number
  | JStr string
  | JArr "json list"
  | JObj "(string \<times> json) list"

datatype exn = TypeError | NetworkError | SyntaxError | ModuleNotFound

text \<open>Sequencing of computations that may throw, and \<^verbatim>\<open>try { ... } catch { return d }\<close>.\<close>

definition bindE :: "exn + 'a \<Rightarrow> ('a \<Rightarrow> exn + 'b) \<Rightarrow> exn + 'b" where
  "bindE m f = (case m of Inl e \<Rightarrow> Inl e | Inr x \<Rightarrow> f x)"

definition catchE :: "exn + 'a \<Rightarrow> 'a \<Rightarrow> 'a" where
  "catchE m d = (case m of Inl e \<Rightarrow> d | Inr x \<Rightarrow> x)"

fun mapE :: "('a \<Rightarrow> exn + 'b) \<Rightarrow> 'a list \<Rightarrow> exn + 'b list" where
  "mapE f [] = Inr []"
| "mapE f (x # xs) = bindE (f x) (\<lambda>y. bindE (mapE f xs) (\<lambda>ys. Inr (y # ys)))"

text \<open>\<^verbatim>\<open>a ?? b\<close> on optional values.\<close>

definition orElse :: "'a option \<Rightarrow> 'a option \<Rightarrow> 'a option" where
  "orElse a b = (case a of Some x \<Rightarrow> Some x | None \<Rightarrow> b)"

text \<open>
  Property access \<^verbatim>\<open>v?.k\<close> for the property names the code reads (none of them is
  \<^verbatim>\<open>length\<close> or an index, so primitives and arrays have no such property);
  \<open>None\<close> is \<^verbatim>\<open>undefined\<close>.
\<close>

definition getProp :: "json \<Rightarrow> string \<Rightarrow> json option" where
  "getProp v k = (case v of JObj kvs \<Rightarrow> map_of kvs k | _ \<Rightarrow> None)"

definition truthy :: "json \<Rightarrow> bool" where
  "truthy v = (case v of
      JNull \<Rightarrow> False
    | JBool b \<Rightarrow> b
    | JNum n \<Rightarrow> (case n of Finite r \<Rightarrow> r \<noteq> 0 | NotFinite \<Rightarrow> True)
    | JStr s \<Rightarrow> s \<noteq> []
    | JArr xs \<Rightarrow> True
    | JObj kvs \<Rightarrow> True)"

text \<open>
  In \<open>truthy\<close> a non-finite number counts as truthy although NaN is falsy: every use below
  is followed by a finiteness test, which fails for all three.
\<close>

definition nullish :: "json option \<Rightarrow> bool" where
  "nullish v = (v = None \<or> v = Some JNull)"

text \<open>\<^verbatim>\<open>a ?? b\<close> on property values: \<^verbatim>\<open>null\<close> and \<^verbatim>\<open>undefined\<close> give way.\<close>

definition coalesce :: "json option \<Rightarrow> json option \<Rightarrow> json option" where
  "coalesce a b = (if nullish a then b else a)"

text \<open>\<^verbatim>\<open>typeof v === "number" && Number.isFinite(v) ? v : undefined\<close> (ragRetriever \<^verbatim>\<open>num\<close>).\<close>

definition num :: "json option \<Rightarrow> real option" where
  "num v = (case v of Some (JNum (Finite r)) \<Rightarrow> Some r | _ \<Rightarrow> None)"

definition numN :: "number option \<Rightarrow> real option" where
  "numN v = (case v of Some (Finite r) \<Rightarrow> Some r | _ \<Rightarrow> None)"

text \<open>
  \<^verbatim>\<open>Number(v)\<close>: the identity on numbers, 0 for \<^verbatim>\<open>null\<close>, NaN for
  \<^verbatim>\<open>undefined\<close>; the conversion of strings, arrays and objects belongs to the runtime and
  is the parameter \<open>toNumber\<close>.
\<close>

definition Number :: "(json \<Rightarrow> number) \<Rightarrow> json option \<Rightarrow> number" where
  "Number toNumber v = (case v of
      None \<Rightarrow> NotFinite
    | Some JNull \<Rightarrow> Finite 0
    | Some (JBool b) \<Rightarrow> Finite (if b then 1 else 0)
    | Some (JNum n) \<Rightarrow> n
    | Some j \<Rightarrow> toNumber j)"

fun finiteOnly :: "number list \<Rightarrow> real list" where
  "finiteOnly [] = []"
| "finiteOnly (Finite r # ns) = r # finiteOnly ns"
| "finiteOnly (NotFinite # ns) = finiteOnly ns"

text \<open>
  Strings are lists of 8-bit code units. \<^verbatim>\<open>trim\<close> removes the white space of that range
  at both ends; \<^verbatim>\<open>toUpperCase\<close> is modelled on the letters a-z.
\<close>

definition isWhiteSpace :: "char \<Rightarrow> bool" where
  "isWhiteSpace c = (c \<in> set [CHR 0x20, CHR 0x09, CHR 0x0A, CHR 0x0B, CHR 0x0C, CHR 0x0D, CHR 0xA0])"

definition trim :: "string \<Rightarrow> string" where
  "trim s = rev (dropWhile isWhiteSpace (rev (dropWhile isWhiteSpace s)))"

definition upperChar :: "char \<Rightarrow> char" where
  "upperChar c = (case map_of (zip ''abcdefghijklmnopqrstuvwxyz'' ''ABCDEFGHIJKLMNOPQRSTUVWXYZ'') c of
      Some u \<Rightarrow> u | None \<Rightarrow> c)"

definition toUpperCase :: "string \<Rightarrow> string" where
  "toUpperCase s = map upperChar s"

section \<open>ragRetriever: indicator math\<close>

datatype MATrend = Up | Down | Flat

definition norm :: "string \<Rightarrow> string" where
  "norm t = toUpperCase (trim t)"

definition toAscending :: "real list \<Rightarrow> real list" where
  "toAscending closes =
     (if 2 \<le> length closes \<and> hd closes > last closes then rev closes else closes)"

text \<open>\<^verbatim>\<open>sma\<close>: with \<open>n = 0\<close> the quotient is 0 / 0, which is NaN.\<close>

definition sma :: "real list \<Rightarrow> nat \<Rightarrow> number option" where
  "sma vs n =
     (if length vs < n then None
      else if n = 0 then Some NotFinite
      else Some (Finite (sum_list (drop (length vs - n) vs) / real n)))"

text \<open>The loop of \<^verbatim>\<open>rsiFromCloses\<close> over consecutive closes, carrying (gains, losses).\<close>

fun gainsLosses :: "real list \<Rightarrow> real \<times> real \<Rightarrow> real \<times> real" where
  "gainsLosses (a # b # rest) (g, l) =
     gainsLosses (b # rest) (if b - a > 0 then (g + (b - a), l) else (g, l - (b - a)))"
| "gainsLosses [a] acc = acc"
| "gainsLosses [] acc = acc"

text \<open>
  \<^verbatim>\<open>rsiFromCloses\<close>: with \<open>n = 0\<close> both averages are 0 / 0 = NaN, the test
  \<^verbatim>\<open>avgLoss === 0\<close> fails and the final \<^verbatim>\<open>Number.isFinite\<close> guard returns
  \<^verbatim>\<open>undefined\<close>.
\<close>

definition rsiFromCloses :: "real list \<Rightarrow> nat \<Rightarrow> real option" where
  "rsiFromCloses vs n =
     (if length vs \<le> n then None
      else let closes = drop (length vs - (n + 1)) vs;
               (gains, losses) = gainsLosses closes (0, 0)
           in if n = 0 then None
              else let avgGain = gains / real n; avgLoss = losses / real n
                   in if avgLoss = 0 then Some 100
                      else Some (100 - 100 / (1 + avgGain / avgLoss)))"

definition momentumPct :: "real list \<Rightarrow> nat \<Rightarrow> real option" where
  "momentumPct vs lookback =
     (if length vs < lookback + 1 then None
      else let a = vs ! (length vs - (lookback + 1)); b = vs ! (length vs - 1)
           in if a = 0 then None else Some ((b / a - 1) * 100))"

definition trendFromMomentum :: "real option \<Rightarrow> real option \<Rightarrow> MATrend" where
  "trendFromMomentum mom pctVsMA50 =
     (if (case mom of Some m \<Rightarrow> m > 1/2 | None \<Rightarrow> False) then Up
      else if (case mom of Some m \<Rightarrow> m < - (1/2) | None \<Rightarrow> False) then Down
      else if (case pctVsMA50 of Some p \<Rightarrow> p > 1/2 | None \<Rightarrow> False) then Up
      else if (case pctVsMA50 of Some p \<Rightarrow> p < - (1/2) | None \<Rightarrow> False) then Down
      else Flat)"

section \<open>technicals.ts\<close>



section \<open>ragRetriever: rows of the local dataset\<close>

record QuickStats =
  qs_price :: "real option"
  qs_high52 :: "real option"
  qs_rsi :: "real option"
  qs_ma50 :: "real option"
  qs_pctVsMA50 :: "real option"
  qs_maTrend :: "MATrend option"

record IndicatorRow =
  row_ticker :: string
  row_price :: "real option"
  row_high52 :: "real option"
  row_rsi :: "real option"
  row_ma50 :: "real option"
  row_pctVsMA50 :: "real option"
  row_company :: "json option"
  row_sector :: "json option"
  row_historical :: "real list"

text \<open>Optional chaining \<^verbatim>\<open>v?.k\<close> on a value that may be \<^verbatim>\<open>undefined\<close> or \<^verbatim>\<open>null\<close>.\<close>

definition optProp :: "json option \<Rightarrow> string \<Rightarrow> json option" where
  "optProp v k = (case v of None \<Rightarrow> None | Some JNull \<Rightarrow> None | Some j \<Rightarrow> getProp j k)"

text \<open>\<^verbatim>\<open>Array.isArray(v) && v.length\<close>: the elements of a non-empty array.\<close>

definition nonEmptyArray :: "json option \<Rightarrow> json list option" where
  "nonEmptyArray v = (case v of Some (JArr xs) \<Rightarrow> if xs = [] then None else Some xs | _ \<Rightarrow> None)"

text \<open>\<^verbatim>\<open>xs.filter(Number.isFinite)\<close>: no coercion, only finite numbers pass.\<close>

definition finiteNumbers :: "json list \<Rightarrow> real list" where
  "finiteNumbers xs = finiteOnly (map (\<lambda>j. case j of JNum n \<Rightarrow> n | _ \<Rightarrow> NotFinite) xs)"

definition isNumber :: "json \<Rightarrow> bool" where
  "isNumber j = (case j of JNum n \<Rightarrow> True | _ \<Rightarrow> False)"

text \<open>
  \<^verbatim>\<open>norm(raw?.ticker || "")\<close>: a falsy ticker becomes the empty string; a truthy value that
  is not a string has no \<^verbatim>\<open>trim\<close> method, and the call throws.
\<close>

definition tickerOf :: "json \<Rightarrow> exn + string" where
  "tickerOf raw = (case optProp (Some raw) ''ticker'' of
      None \<Rightarrow> Inr (norm [])
    | Some v \<Rightarrow> if \<not> truthy v then Inr (norm [])
                else (case v of JStr s \<Rightarrow> Inr (norm s) | _ \<Rightarrow> Inl TypeError))"

definition histArr :: "(json \<Rightarrow> number) \<Rightarrow> json \<Rightarrow> real list" where
  "histArr toNumber raw =
     (case nonEmptyArray (optProp (Some raw) ''historical'') of
        Some hs \<Rightarrow>
          if isNumber (hd hs) then toAscending (finiteNumbers hs)
          else toAscending (finiteOnly (map (\<lambda>h. Number toNumber (optProp (Some h) ''close'')) hs))
      | None \<Rightarrow>
          (case nonEmptyArray (optProp (optProp (Some raw) ''ohlc'') ''close'') of
             Some cs \<Rightarrow> toAscending (finiteOnly (map (\<lambda>c. Number toNumber (Some c)) cs))
           | None \<Rightarrow> []))"

text \<open>
  \<^verbatim>\<open>normalizeRow\<close>: the accesses \<^verbatim>\<open>raw?.ticker\<close>, \<^verbatim>\<open>raw?.historical\<close> and
  \<^verbatim>\<open>raw?.ohlc\<close> tolerate a \<^verbatim>\<open>null\<close> row, the access \<^verbatim>\<open>raw.ma50\<close> after them
  throws on it.
\<close>

definition normalizeRow :: "(json \<Rightarrow> number) \<Rightarrow> json \<Rightarrow> exn + IndicatorRow" where
  "normalizeRow toNumber raw =
     bindE (tickerOf raw) (\<lambda>t.
       if raw = JNull then Inl TypeError
       else Inr \<lparr> row_ticker = t,
                  row_price = num (coalesce (getProp raw ''price'') (getProp raw ''close'')),
                  row_high52 = num (getProp raw ''high52''),
                  row_rsi = num (getProp raw ''rsi''),
                  row_ma50 = num (coalesce (getProp raw ''ma50'') (getProp raw ''ma_50'')),
                  row_pctVsMA50 = num (coalesce (getProp raw ''pctVsMA50'') (getProp raw ''pct_vs_ma50'')),
                  row_company = getProp raw ''company'',
                  row_sector = getProp raw ''sector'',
                  row_historical = histArr toNumber raw \<rparr>)"

section \<open>ragRetriever: the environment, the clock and the caches\<close>

text \<open>
  The URL of a request is kept structured: the Finnhub endpoint with its symbol (and the
  \<^verbatim>\<open>from\<close> and \<^verbatim>\<open>to\<close> seconds of a candle request) and the token appended by
  \<^verbatim>\<open>finnhubGet\<close>, or the base URL under which the public dataset file is fetched.
\<close>

datatype finnhub_url = QuoteUrl string | MetricUrl string | CandleUrl string int int

datatype request = Finnhub finnhub_url string | PublicJson string

text \<open>
  What \<^verbatim>\<open>fetch\<close> and \<^verbatim>\<open>res.json()\<close> can do: the fetch rejects, or it resolves to a
  response with its \<^verbatim>\<open>ok\<close> flag and a body that parses or does not.
\<close>

datatype body = Malformed | Parsed json

datatype response = Rejected | Response bool body

text \<open>
  The import of the dataset module rejects, or yields the module with its export
  \<^verbatim>\<open>SP500_INDICATORS\<close> (\<open>None\<close> when the module has no such export, as the module of this
  repository, which exports only \<^verbatim>\<open>loadIndicatorsFor\<close>).
\<close>

datatype module_import = ImportRejected | Module "json option"

text \<open>
  The environment: the configuration, the network (the response to a request sent at a time,
  and the milliseconds it takes) and the runtime's conversion to numbers.
\<close>

record env =
  FINNHUB_KEY :: string
  NEXT_PUBLIC_BASE_URL :: string
  NEXTAUTH_URL :: string
  dataModule :: module_import
  http :: "request \<Rightarrow> int \<Rightarrow> response \<times> nat"
  toNumber :: "json \<Rightarrow> number"

text \<open>
  The mutable state: \<^verbatim>\<open>Date.now()\<close>, the four module-level caches (an entry is the time
  \<open>t\<close> it was stored at and the value), and the log of the requests sent so far.
\<close>

record world =
  clock :: int
  quoteCache :: "string \<rightharpoonup> int \<times> real option"
  metricCache :: "string \<rightharpoonup> int \<times> real option"
  candleCache :: "string \<rightharpoonup> int \<times> real list"
  datasetCache :: "string \<rightharpoonup> int \<times> IndicatorRow list"
  requests :: "request list"

definition TTL_QUOTE :: int where "TTL_QUOTE = 60 * 1000"
definition TTL_METRIC :: int where "TTL_METRIC = 6 * 60 * 60 * 1000"
definition TTL_CANDLE :: int where "TTL_CANDLE = 2 * 60 * 60 * 1000"
definition TTL_DATASET :: int where "TTL_DATASET = 10 * 60 * 1000"

text \<open>\<^verbatim>\<open>hit && now() - hit.t < TTL\<close>.\<close>

definition fresh :: "int \<Rightarrow> int \<Rightarrow> (int \<times> 'a) option \<Rightarrow> 'a option" where
  "fresh now ttl hit = (case hit of
      None \<Rightarrow> None
    | Some (t, v) \<Rightarrow> if now - t < ttl then Some v else None)"

text \<open>\<^verbatim>\<open>await fetch(url)\<close> followed by the read of the body: the request is logged and time passes.\<close>

definition fetch :: "env \<Rightarrow> request \<Rightarrow> world \<Rightarrow> response \<times> world" where
  "fetch e rq w =
     (let (res, dt) = http e rq (clock w)
      in (res, w\<lparr> clock := clock w + int dt, requests := requests w @ [rq] \<rparr>))"

section \<open>ragRetriever: loading the dataset\<close>

text \<open>The \<^verbatim>\<open>try\<close> block of \<^verbatim>\<open>loadDatasetModule\<close>, and the function with its \<^verbatim>\<open>catch\<close>.\<close>

definition loadDatasetModule_try :: "env \<Rightarrow> exn + IndicatorRow list option" where
  "loadDatasetModule_try e = (case dataModule e of
      ImportRejected \<Rightarrow> Inl ModuleNotFound
    | Module ex \<Rightarrow>
        (case nonEmptyArray ex of
           Some arr \<Rightarrow> bindE (mapE (normalizeRow (toNumber e)) arr) (\<lambda>rows. Inr (Some rows))
         | None \<Rightarrow> Inr None))"

definition loadDatasetModule :: "env \<Rightarrow> world \<Rightarrow> (exn + IndicatorRow list option) \<times> world" where
  "loadDatasetModule e w = (Inr (catchE (loadDatasetModule_try e) None), w)"

definition baseUrl :: "env \<Rightarrow> string" where
  "baseUrl e = (if NEXT_PUBLIC_BASE_URL e \<noteq> [] then NEXT_PUBLIC_BASE_URL e
                else if NEXTAUTH_URL e \<noteq> [] then NEXTAUTH_URL e
                else ''http://localhost:3000'')"

text \<open>
  The \<^verbatim>\<open>try\<close> block of \<^verbatim>\<open>loadDatasetJson\<close>: the rejected fetch, the unparsable body and
  the row that cannot be normalised throw; a response that is not \<^verbatim>\<open>ok\<close> returns
  \<^verbatim>\<open>null\<close> without touching the cache.
\<close>

definition loadDatasetJson_try :: "env \<Rightarrow> world \<Rightarrow> (exn + IndicatorRow list option) \<times> world" where
  "loadDatasetJson_try e w =
     (let (res, w1) = fetch e (PublicJson (baseUrl e)) w
      in case res of
           Rejected \<Rightarrow> (Inl NetworkError, w1)
         | Response ok b \<Rightarrow>
             if \<not> ok then (Inr None, w1)
             else (case b of
                     Malformed \<Rightarrow> (Inl SyntaxError, w1)
                   | Parsed arr \<Rightarrow>
                       (case (case arr of JArr xs \<Rightarrow> mapE (normalizeRow (toNumber e)) xs | _ \<Rightarrow> Inr []) of
                          Inl x \<Rightarrow> (Inl x, w1)
                        | Inr rows \<Rightarrow>
                            (Inr (Some rows),
                             w1\<lparr> datasetCache := (datasetCache w1)(''public_json'' \<mapsto> (clock w1, rows)) \<rparr>))))"

definition loadDatasetJson :: "env \<Rightarrow> world \<Rightarrow> (exn + IndicatorRow list option) \<times> world" where
  "loadDatasetJson e w =
     (case fresh (clock w) TTL_DATASET (datasetCache w ''public_json'') of
        Some rows \<Rightarrow> (Inr (Some rows), w)
      | None \<Rightarrow>
          (case loadDatasetJson_try e w of
             (Inl x, w1) \<Rightarrow> (Inr None, w1)
           | (Inr r, w1) \<Rightarrow> (Inr r, w1)))"

text \<open>\<^verbatim>\<open>Array.isArray(rows) && rows.length\<close>, then \<^verbatim>\<open>rows.find((r) => r.ticker === T)\<close>.\<close>

definition findRow :: "IndicatorRow list option \<Rightarrow> string \<Rightarrow> IndicatorRow option" where
  "findRow rows T = (case rows of None \<Rightarrow> None | Some rs \<Rightarrow> find (\<lambda>r. row_ticker r = T) rs)"

definition loadRow :: "env \<Rightarrow> string \<Rightarrow> world \<Rightarrow> (exn + IndicatorRow option) \<times> world" where
  "loadRow e ticker w =
     (let T = norm ticker
      in case loadDatasetModule e w of
           (Inl x, w1) \<Rightarrow> (Inl x, w1)
         | (Inr modRows, w1) \<Rightarrow>
             (case findRow modRows T of
                Some hit \<Rightarrow> (Inr (Some hit), w1)
              | None \<Rightarrow>
                  (case loadDatasetJson e w1 of
                     (Inl x, w2) \<Rightarrow> (Inl x, w2)
                   | (Inr jsonRows, w2) \<Rightarrow> (Inr (findRow jsonRows T), w2))))"

section \<open>ragRetriever: Finnhub helpers\<close>

definition isObject :: "json \<Rightarrow> bool" where
  "isObject j = (case j of JObj kvs \<Rightarrow> True | JArr xs \<Rightarrow> True | JNull \<Rightarrow> True | _ \<Rightarrow> False)"

text \<open>The \<^verbatim>\<open>try\<close> block of \<^verbatim>\<open>finnhubGet\<close>; \<open>None\<close> is \<^verbatim>\<open>null\<close>.\<close>

definition finnhubGet_try :: "env \<Rightarrow> finnhub_url \<Rightarrow> world \<Rightarrow> (exn + json option) \<times> world" where
  "finnhubGet_try e url w =
     (let (res, w1) = fetch e (Finnhub url (FINNHUB_KEY e)) w
      in case res of
           Rejected \<Rightarrow> (Inl NetworkError, w1)
         | Response ok b \<Rightarrow>
             if \<not> ok then (Inr None, w1)
             else (case b of
                     Malformed \<Rightarrow> (Inl SyntaxError, w1)
                   | Parsed j \<Rightarrow>
                       if truthy j \<and> isObject j \<and> getProp j ''s'' = Some (JStr ''no_data'')
                       then (Inr None, w1)
                       else (Inr (if j = JNull then None else Some j), w1)))"

definition finnhubGet :: "env \<Rightarrow> finnhub_url \<Rightarrow> world \<Rightarrow> (exn + json option) \<times> world" where
  "finnhubGet e url w =
     (if FINNHUB_KEY e = [] then (Inr None, w)
      else (case finnhubGet_try e url w of
              (Inl x, w1) \<Rightarrow> (Inr None, w1)
            | (Inr r, w1) \<Rightarrow> (Inr r, w1)))"

text \<open>
  \<^verbatim>\<open>getLiveQuote\<close>. The cached and returned data \<^verbatim>\<open>{ price }\<close> is modelled by its
  \<^verbatim>\<open>price\<close>; \<^verbatim>\<open>q?.c && Number.isFinite(q.c)\<close> holds for a finite number other than 0.
\<close>

definition getLiveQuote :: "env \<Rightarrow> string \<Rightarrow> world \<Rightarrow> (exn + real option) \<times> world" where
  "getLiveQuote e ticker w =
     (let t = norm ticker
      in case fresh (clock w) TTL_QUOTE (quoteCache w t) of
           Some d \<Rightarrow> (Inr d, w)
         | None \<Rightarrow>
             (case finnhubGet e (QuoteUrl t) w of
                (Inl x, w1) \<Rightarrow> (Inl x, w1)
              | (Inr q, w1) \<Rightarrow>
                  (let c = optProp q ''c'';
                       d = (case c of Some v \<Rightarrow> if truthy v then num c else None | None \<Rightarrow> None)
                   in (Inr d, w1\<lparr> quoteCache := (quoteCache w1)(t \<mapsto> (clock w1, d)) \<rparr>))))"

definition getLiveMetrics :: "env \<Rightarrow> string \<Rightarrow> world \<Rightarrow> (exn + real option) \<times> world" where
  "getLiveMetrics e ticker w =
     (let t = norm ticker
      in case fresh (clock w) TTL_METRIC (metricCache w t) of
           Some d \<Rightarrow> (Inr d, w)
         | None \<Rightarrow>
             (case finnhubGet e (MetricUrl t) w of
                (Inl x, w1) \<Rightarrow> (Inl x, w1)
              | (Inr m, w1) \<Rightarrow>
                  (let d = num (optProp (optProp m ''metric'') ''52WeekHigh'')
                   in (Inr d, w1\<lparr> metricCache := (metricCache w1)(t \<mapsto> (clock w1, d)) \<rparr>))))"

text \<open>
  \<^verbatim>\<open>getLiveCloses\<close>: an answer without a non-empty array \<^verbatim>\<open>c\<close> returns \<^verbatim>\<open>null\<close>
  and stores nothing.
\<close>

definition getLiveCloses :: "env \<Rightarrow> string \<Rightarrow> world \<Rightarrow> (exn + real list option) \<times> world" where
  "getLiveCloses e ticker w =
     (let t = norm ticker
      in case fresh (clock w) TTL_CANDLE (candleCache w t) of
           Some d \<Rightarrow> (Inr (Some d), w)
         | None \<Rightarrow>
             (let toSec = clock w div 1000;
                  fromSec = toSec - 400 * 24 * 60 * 60
              in case finnhubGet e (CandleUrl t fromSec toSec) w of
                   (Inl x, w1) \<Rightarrow> (Inl x, w1)
                 | (Inr c, w1) \<Rightarrow>
                     (case nonEmptyArray (optProp c ''c'') of
                        None \<Rightarrow> (Inr None, w1)
                      | Some xs \<Rightarrow>
                          (let closes = finiteOnly (map (\<lambda>x. Number (toNumber e) (Some x)) xs);
                               last252 = drop (length closes - 252) closes
                           in (Inr (Some last252),
                               w1\<lparr> candleCache := (candleCache w1)(t \<mapsto> (clock w1, last252)) \<rparr>)))))"

section \<open>ragRetriever: getQuickStats\<close>

text \<open>The working set of closes: live candles when there are any, else the row's history.\<close>

definition closesOf :: "IndicatorRow option \<Rightarrow> real list option \<Rightarrow> real list" where
  "closesOf row liveCloses =
     (case liveCloses of
        Some cs \<Rightarrow> if cs \<noteq> [] then cs else (case row of Some r \<Rightarrow> row_historical r | None \<Rightarrow> [])
      | None \<Rightarrow> (case row of Some r \<Rightarrow> row_historical r | None \<Rightarrow> []))"

definition derivedMA50 :: "IndicatorRow option \<Rightarrow> real list \<Rightarrow> number option" where
  "derivedMA50 row closes =
     (case Option.bind row row_ma50 of
        Some m \<Rightarrow> Some (Finite m)
      | None \<Rightarrow> if 50 \<le> length closes then sma closes 50 else None)"

definition derivedRSI :: "IndicatorRow option \<Rightarrow> real list \<Rightarrow> real option" where
  "derivedRSI row closes =
     orElse (Option.bind row row_rsi) (if 15 \<le> length closes then rsiFromCloses closes 14 else None)"

text \<open>
  The resolved price: a normalised row has no \<^verbatim>\<open>close\<close> property, so the third
  alternative \<^verbatim>\<open>num((row as any)?.close)\<close> is \<^verbatim>\<open>undefined\<close>.
\<close>

definition resolvedPrice :: "IndicatorRow option \<Rightarrow> real option \<Rightarrow> real option" where
  "resolvedPrice row liveQ = orElse liveQ (orElse (Option.bind row row_price) None)"

text \<open>
  The recomputation \<^verbatim>\<open>((price / derivedMA50) - 1) * 100\<close>. The only non-finite average that
  \<open>sma\<close> yields in this model is NaN, and the quotient by NaN is NaN.
\<close>

definition pctVsMA50 :: "IndicatorRow option \<Rightarrow> real option \<Rightarrow> number option \<Rightarrow> number option" where
  "pctVsMA50 row price ma50 =
     (case (price, ma50) of
        (Some p, Some (Finite m)) \<Rightarrow>
           if m \<noteq> 0 then Some (Finite ((p / m - 1) * 100))
           else map_option Finite (Option.bind row row_pctVsMA50)
      | (Some p, Some NotFinite) \<Rightarrow> Some NotFinite
      | _ \<Rightarrow> map_option Finite (Option.bind row row_pctVsMA50))"

text \<open>The part of \<^verbatim>\<open>getQuickStats\<close> after the awaits.\<close>

definition quickStats ::
  "IndicatorRow option \<Rightarrow> real option \<Rightarrow> real option \<Rightarrow> real list option \<Rightarrow> QuickStats" where
  "quickStats row liveQ liveM liveCloses =
     (let closes = closesOf row liveCloses;
          ma50 = derivedMA50 row closes;
          rsi' = derivedRSI row closes;
          price = resolvedPrice row liveQ;
          high52 = orElse liveM (Option.bind row row_high52);
          pct = pctVsMA50 row price ma50;
          mom = momentumPct closes 15;
          maTrend = trendFromMomentum mom (numN pct)
      in \<lparr> qs_price = price, qs_high52 = high52, qs_rsi = rsi', qs_ma50 = numN ma50,
           qs_pctVsMA50 = numN pct, qs_maTrend = Some maTrend \<rparr>)"

text \<open>
  \<^verbatim>\<open>getQuickStats\<close>. The three live calls of \<^verbatim>\<open>Promise.all\<close> start at the same instant;
  each touches its own cache, so they are run one after the other from the same starting
  clock, and the clock ends at the latest of their completion times.
\<close>

definition getQuickStats :: "env \<Rightarrow> string \<Rightarrow> world \<Rightarrow> (exn + QuickStats) \<times> world" where
  "getQuickStats e ticker w =
     (let t = norm ticker
      in case loadRow e t w of
           (Inl x, w1) \<Rightarrow> (Inl x, w1)
         | (Inr row, w1) \<Rightarrow>
             (let (rq, wq) = getLiveQuote e t w1;
                  (rm, wm) = getLiveMetrics e t (wq\<lparr> clock := clock w1 \<rparr>);
                  (rc, wc) = getLiveCloses e t (wm\<lparr> clock := clock w1 \<rparr>);
                  w2 = wc\<lparr> clock := max (clock wq) (max (clock wm) (clock wc)) \<rparr>
              in case rq of Inl x \<Rightarrow> (Inl x, w2) | Inr liveQ \<Rightarrow>
                 (case rm of Inl x \<Rightarrow> (Inl x, w2) | Inr liveM \<Rightarrow>
                 (case rc of Inl x \<Rightarrow> (Inl x, w2) | Inr liveCloses \<Rightarrow>
                    (Inr (quickStats row liveQ liveM liveCloses), w2)))))"


section \<open>Configurations used to run the model\<close>

text \<open>No API key, no dataset module export, and a network on which every request is rejected.\<close>

definition offlineEnv :: env where
  "offlineEnv = \<lparr> FINNHUB_KEY = [], NEXT_PUBLIC_BASE_URL = [], NEXTAUTH_URL = [],
                   dataModule = Module None, http = (\<lambda>rq t. (Rejected, 0)),
                   toNumber = (\<lambda>j. NotFinite) \<rparr>"


text \<open>An API key, and a Finnhub that answers every quote request with the price 123.\<close>

definition liveEnv :: env where
  "liveEnv = \<lparr> FINNHUB_KEY = ''k'', NEXT_PUBLIC_BASE_URL = [], NEXTAUTH_URL = [],
      dataModule = Module None,
      http = (\<lambda>rq t. case rq of
                Finnhub (QuoteUrl s) k \<Rightarrow> (Response True (Parsed (JObj [(''c'', JNum (Finite 123))])), 7)
              | _ \<Rightarrow> (Rejected, 0)),
      toNumber = (\<lambda>j. NotFinite) \<rparr>"

definition emptyWorld :: world where
  "emptyWorld = \<lparr> clock = 0, quoteCache = Map.empty, metricCache = Map.empty,
                   candleCache = Map.empty, datasetCache = Map.empty, requests = [] \<rparr>"

text \<open>A world whose quote cache holds the price 5 for AAPL, stored at time 1000.\<close>

definition cachedWorld :: "int \<Rightarrow> world" where
  "cachedWorld now = \<lparr> clock = now, quoteCache = [''AAPL'' \<mapsto> (1000, Some 5)],
                       metricCache = Map.empty, candleCache = Map.empty,
                       datasetCache = Map.empty, requests = [] \<rparr>"

section \<open>prices route: provider order and progressive fill\<close>

datatype Provider = Polygon | Iex | FinnhubP | AlphaVantage

definition ORDER :: "Provider list" where
  "ORDER = [Polygon, Iex, FinnhubP, AlphaVantage]"

definition providerName :: "Provider \<Rightarrow> string" where
  "providerName p = (case p of Polygon \<Rightarrow> ''polygon'' | Iex \<Rightarrow> ''iex''
                     | FinnhubP \<Rightarrow> ''finnhub'' | AlphaVantage \<Rightarrow> ''alphavantage'')"

definition lowerChar :: "char \<Rightarrow> char" where
  "lowerChar c = (case map_of (zip ''ABCDEFGHIJKLMNOPQRSTUVWXYZ'' ''abcdefghijklmnopqrstuvwxyz'') c of
      Some l \<Rightarrow> l | None \<Rightarrow> c)"

definition toLowerCase :: "string \<Rightarrow> string" where
  "toLowerCase s = map lowerChar s"

text \<open>
  The requests of the price providers: Polygon's last trade and previous close of a ticker,
  IEX's batch quote for a list of tickers, Finnhub's quote and Alpha Vantage's global quote.
\<close>

datatype price_request =
    PolygonLast string
  | PolygonPrev string
  | IexBatch "string list"
  | FinnhubQuote string
  | AlphaQuote string

text \<open>
  The environment \<^verbatim>\<open>ENV\<close> of the route with the network and the runtime's conversion to
  numbers. An unset variable is the empty string.
\<close>

record penv =
  PRICES_PROVIDER :: string
  POLYGON_KEY :: string
  IEX_KEY :: string
  FINNHUB_API_KEY :: string
  AV_KEY :: string
  api :: "price_request \<Rightarrow> response"
  stringToNumber :: "json \<Rightarrow> number"

definition PREFERRED :: "penv \<Rightarrow> string" where
  "PREFERRED e = toLowerCase (PRICES_PROVIDER e)"

definition hasProvider :: "penv \<Rightarrow> Provider \<Rightarrow> bool" where
  "hasProvider e p = (case p of Polygon \<Rightarrow> POLYGON_KEY e \<noteq> [] | Iex \<Rightarrow> IEX_KEY e \<noteq> []
                      | FinnhubP \<Rightarrow> FINNHUB_API_KEY e \<noteq> [] | AlphaVantage \<Rightarrow> AV_KEY e \<noteq> [])"

text \<open>
  \<^verbatim>\<open>providerOrder\<close>: \<^verbatim>\<open>ENV.PREFERRED\<close> is a string; when \<^verbatim>\<open>ORDER\<close> includes it, it is
  the name of one provider.
\<close>

definition providerOrder :: "penv \<Rightarrow> Provider list" where
  "providerOrder e =
     (let prefer = (case find (\<lambda>p. providerName p = PREFERRED e) ORDER of Some p \<Rightarrow> [p] | None \<Rightarrow> []);
          rest = filter (\<lambda>p. providerName p \<noteq> PREFERRED e) ORDER
      in filter (hasProvider e) (prefer @ rest))"

definition normTicker :: "string \<Rightarrow> string" where
  "normTicker t = toUpperCase (trim t)"

text \<open>\<^verbatim>\<open>Math.round(n * 100) / 100\<close> for a finite number, \<^verbatim>\<open>undefined\<close> otherwise.\<close>

definition round2 :: "json option \<Rightarrow> real option" where
  "round2 v = (case v of Some (JNum (Finite n)) \<Rightarrow> Some (of_int \<lfloor>n * 100 + 1 / 2\<rfloor> / 100) | _ \<Rightarrow> None)"

definition round2N :: "number \<Rightarrow> real option" where
  "round2N n = round2 (Some (JNum n))"

text \<open>
  Access by a computed key, \<^verbatim>\<open>j?.[k]\<close>: on an array a canonical decimal index selects the
  element. (On a string it selects a character, which has none of the properties read next.)
\<close>

definition digitOf :: "char \<Rightarrow> nat option" where
  "digitOf c = map_of (zip ''0123456789'' [0, 1, 2, 3, 4, 5, 6, 7, 8, 9]) c"

definition parseIndex :: "string \<Rightarrow> nat option" where
  "parseIndex s =
     (if s = [] \<or> (hd s = CHR ''0'' \<and> length s > 1) \<or> (\<exists>c \<in> set s. digitOf c = None) then None
      else Some (foldl (\<lambda>a c. 10 * a + the (digitOf c)) 0 s))"

definition optKey :: "json option \<Rightarrow> string \<Rightarrow> json option" where
  "optKey v k = (case v of
      Some (JObj kvs) \<Rightarrow> map_of kvs k
    | Some (JArr xs) \<Rightarrow> (case parseIndex k of
                            Some i \<Rightarrow> if i < length xs then Some (xs ! i) else None
                          | None \<Rightarrow> None)
    | _ \<Rightarrow> None)"

text \<open>
  The JSON of a response that is \<^verbatim>\<open>ok\<close> and parses; a rejected fetch, another status or
  a body that does not parse leaves the ticker without a price (the notes written to
  \<^verbatim>\<open>errors\<close> influence neither the prices nor the control flow and are not modelled).
\<close>

definition okJson :: "response \<Rightarrow> json option" where
  "okJson r = (case r of Response ok (Parsed j) \<Rightarrow> if ok then Some j else None | _ \<Rightarrow> None)"

text \<open>The object \<^verbatim>\<open>out\<close> filled by one callback per requested ticker.\<close>

definition fillOut :: "(string \<Rightarrow> real option) \<Rightarrow> string list \<Rightarrow> (string \<rightharpoonup> real)" where
  "fillOut priceOf tickers = (\<lambda>t. if t \<in> set tickers then priceOf t else None)"

definition polygonLast :: "penv \<Rightarrow> string \<Rightarrow> real option" where
  "polygonLast e t = (case okJson (api e (PolygonLast t)) of
      Some j \<Rightarrow> round2 (optProp (optProp (Some j) ''results'') ''p'')
    | None \<Rightarrow> None)"

definition polygonPrev :: "penv \<Rightarrow> string \<Rightarrow> real option" where
  "polygonPrev e t = (case okJson (api e (PolygonPrev t)) of
      Some j \<Rightarrow> round2 (optProp (optKey (optProp (Some j) ''results'') ''0'') ''c'')
    | None \<Rightarrow> None)"

definition fetchPolygon :: "penv \<Rightarrow> string list \<Rightarrow> (string \<rightharpoonup> real)" where
  "fetchPolygon e tickers =
     (let out = fillOut (polygonLast e) tickers;
          missing = filter (\<lambda>t. out t = None) tickers
      in out ++ fillOut (polygonPrev e) missing)"

definition fetchIEX :: "penv \<Rightarrow> string list \<Rightarrow> (string \<rightharpoonup> real)" where
  "fetchIEX e tickers =
     (case okJson (api e (IexBatch tickers)) of
        Some j \<Rightarrow>
          fillOut (\<lambda>t. let q = optProp (optKey (Some j) t) ''quote''
                       in round2 (coalesce (optProp q ''latestPrice'')
                                    (coalesce (optProp q ''iexRealtimePrice'') (optProp q ''delayedPrice''))))
                  tickers
      | None \<Rightarrow> Map.empty)"

definition fetchFinnhub :: "penv \<Rightarrow> string list \<Rightarrow> (string \<rightharpoonup> real)" where
  "fetchFinnhub e tickers =
     fillOut (\<lambda>t. case okJson (api e (FinnhubQuote t)) of
                    Some j \<Rightarrow> round2 (coalesce (optProp (Some j) ''c'') (optProp (Some j) ''pc''))
                  | None \<Rightarrow> None)
             tickers"

definition fetchAlphaVantage :: "penv \<Rightarrow> string list \<Rightarrow> (string \<rightharpoonup> real)" where
  "fetchAlphaVantage e tickers =
     fillOut (\<lambda>t. case okJson (api e (AlphaQuote t)) of
                    Some j \<Rightarrow>
                      (let g = optProp (Some j) ''Global Quote'';
                           raw = coalesce (optProp g ''05. price'') (optProp g ''08. previous close'')
                       in round2N (Number (stringToNumber e) raw))
                  | None \<Rightarrow> None)
             tickers"

definition fetchProvider :: "penv \<Rightarrow> Provider \<Rightarrow> string list \<Rightarrow> (string \<rightharpoonup> real)" where
  "fetchProvider e p remaining = (case p of
      Polygon \<Rightarrow> fetchPolygon e remaining
    | Iex \<Rightarrow> fetchIEX e remaining
    | FinnhubP \<Rightarrow> fetchFinnhub e remaining
    | AlphaVantage \<Rightarrow> fetchAlphaVantage e remaining)"

text \<open>\<^verbatim>\<open>Array.from(new Set(xs))\<close>: the first occurrence of each element, in order.\<close>

fun uniq :: "'a list \<Rightarrow> 'a list \<Rightarrow> 'a list" where
  "uniq seen [] = []"
| "uniq seen (x # xs) = (if x \<in> set seen then uniq seen xs else x # uniq (x # seen) xs)"

text \<open>
  The \<^verbatim>\<open>for (const provider of chain)\<close> loop of \<^verbatim>\<open>resolvePrices\<close>, on the prices
  collected so far. Besides the prices it returns the log of the attempts made: the provider
  and the tickers passed to it.
\<close>

fun resolveLoop ::
  "penv \<Rightarrow> string list \<Rightarrow> Provider list \<Rightarrow> (string \<rightharpoonup> real) \<Rightarrow> (Provider \<times> string list) list
     \<Rightarrow> (string \<rightharpoonup> real) \<times> (Provider \<times> string list) list" where
  "resolveLoop e tickers [] prices attempts = (prices, attempts)"
| "resolveLoop e tickers (provider # chain) prices attempts =
     (let remaining = filter (\<lambda>t. prices t = None) tickers
      in if remaining = [] then (prices, attempts)
         else resolveLoop e tickers chain (prices ++ fetchProvider e provider remaining)
                (attempts @ [(provider, remaining)]))"

datatype price_error = NoProviderConfigured

record resolved =
  res_prices :: "string \<rightharpoonup> real"
  res_source :: Provider
  res_filled :: nat
  res_attempts :: "(Provider \<times> string list) list"

text \<open>
  \<^verbatim>\<open>resolvePrices\<close>. The keys of \<^verbatim>\<open>prices\<close> are among the de-duplicated tickers, so
  \<^verbatim>\<open>Object.keys(prices).length\<close> counts the priced tickers.
\<close>

definition resolvePrices :: "penv \<Rightarrow> string list \<Rightarrow> price_error + resolved" where
  "resolvePrices e tickersRaw =
     (let tickers = uniq [] (filter (\<lambda>t. t \<noteq> []) (map normTicker tickersRaw));
          chain = providerOrder e
      in if chain = [] then Inl NoProviderConfigured
         else (let (prices, attempts) = resolveLoop e tickers chain Map.empty []
               in Inr \<lparr> res_prices = prices, res_source = hd chain,
                        res_filled = length (filter (\<lambda>t. prices t \<noteq> None) tickers),
                        res_attempts = attempts \<rparr>))"

text \<open>
  A configuration for running the model: Finnhub preferred, keys for Finnhub and Polygon.
  Finnhub quotes AAPL and rejects MSFT; Polygon has no last trade for MSFT but a previous close.
\<close>

definition pricesDemoEnv :: penv where
  "pricesDemoEnv = \<lparr> PRICES_PROVIDER = ''Finnhub'', POLYGON_KEY = ''k1'', IEX_KEY = [],
      FINNHUB_API_KEY = ''k2'', AV_KEY = [],
      api = (\<lambda>rq. if rq = FinnhubQuote ''AAPL''
                     then Response True (Parsed (JObj [(''c'', JNum (Finite (101237 / 1000)))]))
                   else if rq = PolygonPrev ''MSFT''
                     then Response True (Parsed (JObj [(''results'', JArr [JObj [(''c'', JNum (Finite 50))]])]))
                   else if rq = PolygonLast ''MSFT'' then Response False Malformed
                   else Rejected),
      stringToNumber = (\<lambda>j. NotFinite) \<rparr>"

section \<open>tickers: extractTickersRich\<close>

text \<open>
  The table \<^verbatim>\<open>SP500_COMPANIES\<close> (ticker to company name) is imported from a data module; its
  entries, in the order of \<^verbatim>\<open>Object.entries\<close>, are the parameter \<open>companies\<close> below.
  The zero-width characters removed and the typographic quotes replaced by \<^verbatim>\<open>tokenize\<close> lie
  outside the 8-bit code units of the strings modelled here, on which both replacements are the
  identity.
\<close>

definition EXTRA_TICKERS :: "string list" where
  "EXTRA_TICKERS = [''SPY'', ''QQQ'', ''DIA'']"

definition TICKERS_SET :: "(string \<times> string) list \<Rightarrow> string set" where
  "TICKERS_SET companies = set (map fst companies @ EXTRA_TICKERS)"

definition MANUAL_ALIASES :: "(string \<times> string list) list" where
  "MANUAL_ALIASES =
    [(''google'', [''GOOGL'', ''GOOG'']),
     (''alphabet'', [''GOOGL'', ''GOOG'']),
     (''meta'', [''META'']), (''facebook'', [''META'']),
     (''nvidia'', [''NVDA'']), (''amd'', [''AMD'']),
     (''microsoft'', [''MSFT'']), (''apple'', [''AAPL'']), (''tesla'', [''TSLA'']),
     (''berkshire'', [''BRK.B'', ''BRK.A'']), (''berkshire hathaway'', [''BRK.B'', ''BRK.A'']),
     (''unitedhealth'', [''UNH'']), (''unitedhealthcare'', [''UNH'']),
     (''jpmorgan'', [''JPM'']), (''jp morgan'', [''JPM'']),
     (''morganstanley'', [''MS'']), (''broadcom'', [''AVGO'']), (''costco'', [''COST'']),
     (''exxon'', [''XOM'']), (''chevron'', [''CVX'']), (''ibm'', [''IBM'']),
     (''disney'', [''DIS'']), (''netflix'', [''NFLX'']), (''adobe'', [''ADBE'']),
     (''salesforce'', [''CRM'']), (''pepsico'', [''PEP'']), (''cocacola'', [''KO'']), (''coca cola'', [''KO'']),
     (''mcdonalds'', [''MCD'']), (''mcdonald'' @ [CHR 0x27] @ ''s'', [''MCD''])]"

definition isLowerAlnum :: "char \<Rightarrow> bool" where
  "isLowerAlnum c = (c \<in> set ''abcdefghijklmnopqrstuvwxyz0123456789'')"

definition isUpper :: "char \<Rightarrow> bool" where
  "isUpper c = (c \<in> set ''ABCDEFGHIJKLMNOPQRSTUVWXYZ'')"

definition isWordChar :: "char \<Rightarrow> bool" where
  "isWordChar c = (isLowerAlnum c \<or> isUpper c \<or> c = CHR ''_'')"

text \<open>\<^verbatim>\<open>s.replace(/\s+/g, " ")\<close>; the flag tells whether the previous character was white space.\<close>

fun collapseWs :: "bool \<Rightarrow> string \<Rightarrow> string" where
  "collapseWs b [] = []"
| "collapseWs b (c # cs) =
     (if isWhiteSpace c then (if b then collapseWs True cs else CHR '' '' # collapseWs True cs)
      else c # collapseWs False cs)"

text \<open>\<^verbatim>\<open>norm\<close> of the tickers module (the name \<open>norm\<close> is taken by the one of ragRetriever).\<close>

definition normPhrase :: "string \<Rightarrow> string" where
  "normPhrase s =
     trim (collapseWs False
       (map (\<lambda>c. if isLowerAlnum c \<or> isWhiteSpace c \<or> c = CHR ''.'' then c else CHR '' '')
         (concat (map (\<lambda>c. if c = CHR ''&'' then '' and '' else [c]) (toLowerCase s)))))"

text \<open>
  \<^verbatim>\<open>s.split(sep).filter(Boolean)\<close> for a separator that is one character of a class, or a
  run of them: the maximal runs of other characters. \<open>cur\<close> is the run being read.
\<close>

fun splitRuns :: "(char \<Rightarrow> bool) \<Rightarrow> string \<Rightarrow> string \<Rightarrow> string list" where
  "splitRuns sep cur [] = (if cur = [] then [] else [cur])"
| "splitRuns sep cur (c # cs) =
     (if sep c then (if cur = [] then splitRuns sep [] cs else cur # splitRuns sep [] cs)
      else splitRuns sep (cur @ [c]) cs)"

definition splitSpaces :: "string \<Rightarrow> string list" where
  "splitSpaces s = splitRuns (\<lambda>c. c = CHR '' '') [] s"

fun joinSpaces :: "string list \<Rightarrow> string" where
  "joinSpaces [] = []"
| "joinSpaces [w] = w"
| "joinSpaces (w # ws) = w @ '' '' @ joinSpaces ws"

text \<open>
  \<^verbatim>\<open>n.replace(/\b(incorporated|inc|corp(oration)?|company|co|plc|ltd|limited)\b/g, "")\<close>: between
  two word boundaries the alternatives can only match a whole word, so the replacement deletes
  the maximal runs of word characters that are one of these words. \<open>cur\<close> is the word being read.
\<close>

definition legalSuffixes :: "string list" where
  "legalSuffixes = [''incorporated'', ''inc'', ''corp'', ''corporation'', ''company'', ''co'', ''plc'', ''ltd'', ''limited'']"

fun dropLegalSuffixes :: "string \<Rightarrow> string \<Rightarrow> string" where
  "dropLegalSuffixes cur [] = (if cur \<in> set legalSuffixes then [] else cur)"
| "dropLegalSuffixes cur (c # cs) =
     (if isWordChar c then dropLegalSuffixes (cur @ [c]) cs
      else (if cur \<in> set legalSuffixes then [] else cur) @ c # dropLegalSuffixes [] cs)"

definition lite :: "string \<Rightarrow> string" where
  "lite n = trim (collapseWs False (dropLegalSuffixes [] n))"

text \<open>
  \<^verbatim>\<open>(map.get(k) ?? map.set(k, []).get(k)!).push(...vs)\<close> on a \<^verbatim>\<open>Map\<close> kept as the list of its
  entries in insertion order.
\<close>

definition pushTo :: "(string \<times> string list) list \<Rightarrow> string \<Rightarrow> string list \<Rightarrow> (string \<times> string list) list" where
  "pushTo m k vs =
     (if k \<in> set (map fst m) then map (\<lambda>(k', l). if k' = k then (k', l @ vs) else (k', l)) m
      else m @ [(k, vs)])"

definition addCompany :: "(string \<times> string list) list \<Rightarrow> string \<times> string \<Rightarrow> (string \<times> string list) list" where
  "addCompany m tc =
     (let t = fst tc; n = normPhrase (snd tc); m1 = pushTo m n [t]; l = lite n
      in if l \<noteq> [] \<and> l \<noteq> n then pushTo m1 l [t] else m1)"

definition addAlias :: "(string \<times> string list) list \<Rightarrow> string \<times> string list \<Rightarrow> (string \<times> string list) list" where
  "addAlias m al =
     (let n = normPhrase (fst al);
          present = (case map_of m n of Some l \<Rightarrow> l | None \<Rightarrow> [])
      in pushTo m n (filter (\<lambda>x. x \<notin> set present) (snd al)))"

definition NAME_TO_TICKER :: "(string \<times> string) list \<Rightarrow> (string \<times> string list) list" where
  "NAME_TO_TICKER companies = foldl addAlias (foldl addCompany [] companies) MANUAL_ALIASES"

definition isSeparator :: "char \<Rightarrow> bool" where
  "isSeparator c = (isWhiteSpace c \<or> c \<in> set '',;:/()[]{}|'')"

definition tokenize :: "string \<Rightarrow> string list" where
  "tokenize text = splitRuns isSeparator [] text"

text \<open>\<^verbatim>\<open>name.includes(q)\<close>.\<close>

fun isPrefixOf :: "string \<Rightarrow> string \<Rightarrow> bool" where
  "isPrefixOf [] s = True"
| "isPrefixOf (q # qs) [] = False"
| "isPrefixOf (q # qs) (c # cs) = (q = c \<and> isPrefixOf qs cs)"

fun includesStr :: "string \<Rightarrow> string \<Rightarrow> bool" where
  "includesStr [] q = (q = [])"
| "includesStr (c # cs) q = (isPrefixOf q (c # cs) \<or> includesStr cs q)"

definition fuzzyCompanyScore :: "string \<Rightarrow> string \<Rightarrow> real" where
  "fuzzyCompanyScore q name =
     (if q = name then 1
      else if includesStr name q then 85 / 100
      else if includesStr q name then 75 / 100
      else let qa = remdups (splitSpaces q); na = remdups (splitSpaces name);
               hit = length (filter (\<lambda>w. w \<in> set na) qa);
               denom = max 1 (min (length qa) (length na))
           in (real hit / real denom) * (7 / 10))"

datatype matched = BySymbol | ByCompany | ByAlias | ByCookie | ByClientHint

text \<open>The four texts of the field \<^verbatim>\<open>reason\<close>.\<close>

datatype reason = ExplicitTicker | ResolvedCompany string | PriorContext | NoTickerFound

record ExtractResult =
  bestTicker :: "string option"
  allTickers :: "string list"
  matchedBy :: "matched option"
  confidence :: real
  reason :: reason

record ExtractOpts =
  lastCookieTicker :: "string option"
  lastClientTicker :: "string option"
  preferLatest :: "bool option"

text \<open>\<^verbatim>\<open>raw.replace(/^[\$#]/, "").replace(/[?!\.,]+$/g, "")\<close>.\<close>

definition coreOf :: "string \<Rightarrow> string" where
  "coreOf raw =
     (let s = (case raw of c # cs \<Rightarrow> if c = CHR ''$'' \<or> c = CHR ''#'' then cs else raw | [] \<Rightarrow> [])
      in rev (dropWhile (\<lambda>c. c \<in> set ''?!.,'') (rev s)))"

text \<open>\<^verbatim>\<open>/^[A-Z]{1,5}(\.[A-Z])?$/.test(core)\<close>.\<close>

definition symbolShape :: "string \<Rightarrow> bool" where
  "symbolShape core =
     (let letters = takeWhile isUpper core; rest = dropWhile isUpper core
      in 1 \<le> length letters \<and> length letters \<le> 5 \<and>
         (rest = [] \<or> (length rest = 2 \<and> hd rest = CHR ''.'' \<and> isUpper (rest ! 1))))"

text \<open>The symbols pushed by the loop over the tokens, in text order.\<close>

definition symbolsOf :: "(string \<times> string) list \<Rightarrow> string \<Rightarrow> string list" where
  "symbolsOf companies text =
     concat (map (\<lambda>raw. let core = coreOf raw
                        in if symbolShape core \<and> toUpperCase core \<in> TICKERS_SET companies
                           then [toUpperCase core] else [])
                 (tokenize text))"

text \<open>One iteration of the inner loop over the phrases: the mention pushed for a phrase, if any.\<close>

definition mentionOf :: "(string \<times> string list) list \<Rightarrow> string \<Rightarrow> (string \<times> string list \<times> real) option" where
  "mentionOf names phrase =
     (if length phrase < 3 then None
      else case map_of names phrase of
             Some (t # ts) \<Rightarrow> Some (phrase, t # ts, 9 / 10)
           | _ \<Rightarrow> (case find (\<lambda>(name, l). fuzzyCompanyScore phrase name \<ge> 82 / 100) names of
                     Some (name, l) \<Rightarrow> Some (phrase, l, fuzzyCompanyScore phrase name)
                   | None \<Rightarrow> None))"

definition mentionsOf :: "(string \<times> string list) list \<Rightarrow> string list \<Rightarrow> (string \<times> string list \<times> real) list" where
  "mentionsOf names words =
     concat (map (\<lambda>span.
        concat (map (\<lambda>i. case mentionOf names (trim (joinSpaces (take span (drop i words)))) of
                            Some m \<Rightarrow> [m] | None \<Rightarrow> [])
                    [0 ..< length words + 1 - span]))
        (rev [1 ..< min 5 (length words) + 1]))"

text \<open>
  The company stage: the best mention after the stable sort by descending score, and the result
  returned when one of its tickers is known; \<open>None\<close> when the code falls through.
\<close>

definition companyMatch :: "(string \<times> string) list \<Rightarrow> string \<Rightarrow> ExtractResult option" where
  "companyMatch companies text =
     (let words = splitSpaces (normPhrase text);
          mentions = sort_key (\<lambda>m. - snd (snd m)) (mentionsOf (NAME_TO_TICKER companies) words)
      in case mentions of
           [] \<Rightarrow> None
         | m # ms \<Rightarrow>
             (let list = filter (\<lambda>t. t \<in> TICKERS_SET companies) (fst (snd m))
              in case list of
                   [] \<Rightarrow> None
                 | t # ts \<Rightarrow> Some \<lparr> bestTicker = Some t, allTickers = t # ts, matchedBy = Some ByCompany,
                                     confidence = (if snd (snd m) \<ge> 9 / 10 then 75 / 100 else 5 / 10),
                                     reason = ResolvedCompany (fst m) \<rparr>))"

text \<open>
  \<^verbatim>\<open>[cookie?.toUpperCase(), client?.toUpperCase()].filter(Boolean).find((t) => TICKERS_SET.has(t))\<close>
  and the result built from it.
\<close>

definition fallbackTicker :: "(string \<times> string) list \<Rightarrow> ExtractOpts \<Rightarrow> string option" where
  "fallbackTicker companies opts =
     find (\<lambda>t. t \<in> TICKERS_SET companies)
       (filter (\<lambda>t. t \<noteq> [])
          (map toUpperCase
             ((case lastCookieTicker opts of Some c \<Rightarrow> [c] | None \<Rightarrow> []) @
              (case lastClientTicker opts of Some c \<Rightarrow> [c] | None \<Rightarrow> []))))"

definition extractTickersRich :: "(string \<times> string) list \<Rightarrow> string \<Rightarrow> ExtractOpts \<Rightarrow> ExtractResult" where
  "extractTickersRich companies text opts =
     (let preferLatest' = (preferLatest opts \<noteq> Some False);
          symbols = symbolsOf companies text;
          ordered = (if preferLatest' then symbols else rev symbols);
          uniqSymbols = uniq [] ordered
      in if uniqSymbols \<noteq> []
         then \<lparr> bestTicker = Some (if preferLatest' then last uniqSymbols else hd uniqSymbols),
                allTickers = uniqSymbols, matchedBy = Some BySymbol, confidence = 1,
                reason = ExplicitTicker \<rparr>
         else (case companyMatch companies text of
                 Some r \<Rightarrow> r
               | None \<Rightarrow>
                   (case fallbackTicker companies opts of
                      Some fb \<Rightarrow>
                        \<lparr> bestTicker = Some fb, allTickers = [fb],
                          matchedBy = Some (if map_option toUpperCase (lastCookieTicker opts) = Some fb
                                            then ByCookie else ByClientHint),
                          confidence = 25 / 100, reason = PriorContext \<rparr>
                    | None \<Rightarrow>
                        \<lparr> bestTicker = None, allTickers = [], matchedBy = None, confidence = 0,
                          reason = NoTickerFound \<rparr>)))"

text \<open>The options of a call without the second argument.\<close>

definition noOpts :: ExtractOpts where
  "noOpts = \<lparr> lastCookieTicker = None, lastClientTicker = None, preferLatest = None \<rparr>"

text \<open>A company table with two entries, for running the model.\<close>

definition demoCompanies :: "(string \<times> string) list" where
  "demoCompanies = [(''AMZN'', ''Amazon.com, Inc.''), (''TSLA'', ''Tesla, Inc.'')]"

section \<open>portfolio: rows, screens and ranking\<close>

text \<open>
  A dataset row with the fields that the builder reads; a field of type \<^verbatim>\<open>number\<close> may
  hold a non-finite value. The builder's \<^verbatim>\<open>notes\<close> text is not modelled.
\<close>

record DatasetRow =
  dr_ticker :: string
  dr_sector :: "string option"
  dr_close :: "number option"
  dr_price :: "number option"
  dr_last :: "number option"
  dr_dividend_yield :: "number option"
  dr_dividendYield :: "number option"
  dr_dy :: "number option"
  dr_market_cap :: "number option"
  dr_marketCap :: "number option"
  dr_market_capitalization :: "number option"

record Allocation =
  al_ticker :: string
  al_dollars :: real
  al_estShares :: "real option"
  al_sector :: "string option"

record Screen =
  minYield :: "real option"
  minMktCap :: "real option"
  minPrice :: "real option"
  includeList :: "string list option"
  excludeList :: "string list option"

text \<open>\<^verbatim>\<open>Screen & FallbackTuning\<close>.\<close>

record StrictScreen = Screen +
  relaxYieldTo :: "real option"
  relaxYieldStep :: "real option"
  relaxCapTo :: "real option"
  relaxCapFactor :: "real option"

record BuildOpts =
  opt_amount :: real
  opt_n :: int
  opt_minDividendYield :: "real option"
  opt_minMarketCap :: "real option"
  opt_minPrice :: "real option"
  opt_include :: "string list option"
  opt_exclude :: "string list option"
  opt_relaxYieldTo :: "real option"
  opt_relaxYieldStep :: "real option"
  opt_relaxCapTo :: "real option"
  opt_relaxCapFactor :: "real option"

definition cleanTicker :: "string \<Rightarrow> string" where
  "cleanTicker t = trim (toUpperCase t)"

definition getPrice :: "DatasetRow \<Rightarrow> real option" where
  "getPrice r = numN (orElse (dr_close r) (orElse (dr_price r) (dr_last r)))"

definition getYield :: "DatasetRow \<Rightarrow> real option" where
  "getYield r = numN (orElse (dr_dividend_yield r) (orElse (dr_dividendYield r) (dr_dy r)))"

definition getMktCap :: "DatasetRow \<Rightarrow> real option" where
  "getMktCap r = numN (orElse (dr_market_cap r) (orElse (dr_marketCap r) (dr_market_capitalization r)))"

text \<open>The loop of \<^verbatim>\<open>uniqByTicker\<close>, with the tickers seen so far.\<close>

fun uniqByTickerFrom :: "string list \<Rightarrow> DatasetRow list \<Rightarrow> DatasetRow list" where
  "uniqByTickerFrom seen [] = []"
| "uniqByTickerFrom seen (x # xs) =
     (let t = cleanTicker (dr_ticker x)
      in if t = [] \<or> t \<in> set seen then uniqByTickerFrom seen xs
         else x\<lparr> dr_ticker := t \<rparr> # uniqByTickerFrom (t # seen) xs)"

definition uniqByTicker :: "DatasetRow list \<Rightarrow> DatasetRow list" where
  "uniqByTicker arr = uniqByTickerFrom [] arr"

definition sectorOf :: "DatasetRow \<Rightarrow> string" where
  "sectorOf r = trim (case dr_sector r of Some s \<Rightarrow> if s = [] then ''Unknown'' else s | None \<Rightarrow> ''Unknown'')"

text \<open>
  \<^verbatim>\<open>+(dollars / price).toFixed(4)\<close>: \<^verbatim>\<open>toFixed\<close> takes the sign apart and rounds the
  magnitude to the nearest multiple of 1/10000, the larger one at a tie (so ties go away from
  zero); from 1e21 on it prints the number itself.
\<close>

definition toFixed4 :: "real \<Rightarrow> real" where
  "toFixed4 x =
     (if \<bar>x\<bar> \<ge> 10 ^ 21 then x
      else sgn x * (of_int \<lfloor>\<bar>x\<bar> * 10000 + 1 / 2\<rfloor> / 10000))"

definition sharesFrom :: "real \<Rightarrow> real \<Rightarrow> real option" where
  "sharesFrom dollars price =
     (if dollars = 0 \<or> price = 0 \<or> price \<le> 0 then None
      else Some (toFixed4 (dollars / price)))"

text \<open>The predicate of the \<^verbatim>\<open>filter\<close> in \<^verbatim>\<open>screenRows\<close>; an absent floor is \<open>-Infinity\<close>.\<close>

definition screenKeeps :: "'a Screen_scheme \<Rightarrow> DatasetRow \<Rightarrow> bool" where
  "screenKeeps sc r =
     (let minP = (case minPrice sc of Some p \<Rightarrow> p | None \<Rightarrow> 0);
          exclude = set (map cleanTicker (case excludeList sc of Some xs \<Rightarrow> xs | None \<Rightarrow> []));
          t = cleanTicker (dr_ticker r)
      in if t = [] \<or> t \<in> exclude then False
         else (case getPrice r of
                 None \<Rightarrow> False
               | Some px \<Rightarrow>
                   if px \<le> 0 \<or> px < minP then False
                   else if (case (getYield r, minYield sc) of (Some y, Some minY) \<Rightarrow> y < minY | _ \<Rightarrow> False) then False
                   else if (case (getMktCap r, minMktCap sc) of (Some mc, Some minC) \<Rightarrow> mc < minC | _ \<Rightarrow> False) then False
                   else True))"

definition screenRows :: "DatasetRow list \<Rightarrow> 'a Screen_scheme \<Rightarrow> DatasetRow list" where
  "screenRows rows sc = filter (screenKeeps sc) rows"

text \<open>
  The sign of the number returned by \<^verbatim>\<open>rankForDividend\<close>. A missing yield or cap counts
  as \<open>-Infinity\<close>, a missing price as \<open>Infinity\<close>; the difference of two missing prices is NaN,
  which a sort treats as 0.
\<close>

definition belowOpt :: "real option \<Rightarrow> real option \<Rightarrow> bool" where
  "belowOpt a b = (case (a, b) of (None, Some y) \<Rightarrow> True | (Some x, Some y) \<Rightarrow> x < y | _ \<Rightarrow> False)"

definition rankForDividend :: "DatasetRow \<Rightarrow> DatasetRow \<Rightarrow> int" where
  "rankForDividend a b =
     (if getYield b \<noteq> getYield a then (if belowOpt (getYield a) (getYield b) then 1 else -1)
      else if getMktCap b \<noteq> getMktCap a then (if belowOpt (getMktCap a) (getMktCap b) then 1 else -1)
      else (case (getPrice a, getPrice b) of
              (None, None) \<Rightarrow> 0
            | (None, Some bp) \<Rightarrow> 1
            | (Some ap, None) \<Rightarrow> -1
            | (Some ap, Some bp) \<Rightarrow> (if ap < bp then -1 else if ap > bp then 1 else 0)))"

text \<open>
  \<^verbatim>\<open>Array.prototype.sort\<close> with a comparator is a stable sort; it is modelled by insertion
  from the right, which gives the stable order for the comparators used here.
\<close>

fun insertSorted :: "('a \<Rightarrow> 'a \<Rightarrow> int) \<Rightarrow> 'a \<Rightarrow> 'a list \<Rightarrow> 'a list" where
  "insertSorted cmp x [] = [x]"
| "insertSorted cmp x (y # ys) = (if cmp x y \<le> 0 then x # y # ys else y # insertSorted cmp x ys)"

definition sortWith :: "('a \<Rightarrow> 'a \<Rightarrow> int) \<Rightarrow> 'a list \<Rightarrow> 'a list" where
  "sortWith cmp xs = foldr (insertSorted cmp) xs []"

section \<open>portfolio: progressive fallback for a sector\<close>

definition yieldTo :: "StrictScreen \<Rightarrow> real" where
  "yieldTo strict = (case relaxYieldTo strict of Some v \<Rightarrow> v | None \<Rightarrow> 2)"

definition yieldStep :: "StrictScreen \<Rightarrow> real" where
  "yieldStep strict = (case relaxYieldStep strict of Some v \<Rightarrow> v | None \<Rightarrow> 1 / 2)"

definition capTo :: "StrictScreen \<Rightarrow> real" where
  "capTo strict = (case relaxCapTo strict of Some v \<Rightarrow> v | None \<Rightarrow> 5000000000)"

definition capFactor :: "StrictScreen \<Rightarrow> real" where
  "capFactor strict = (case relaxCapFactor strict of Some v \<Rightarrow> v | None \<Rightarrow> 8 / 10)"

text \<open>
  The two \<^verbatim>\<open>while\<close> loops. Either may run forever (a step that is not positive, a factor
  that does not shrink the floor), so each takes fuel and returns \<open>None\<close> when it is used up.
  A loop ends with the slice it returns from the function (\<open>Inl\<close>) or with its floor and pool
  (\<open>Inr\<close>); the last component is the list of the pools computed so far.
\<close>

fun yieldLoop ::
  "nat \<Rightarrow> DatasetRow list \<Rightarrow> StrictScreen \<Rightarrow> nat \<Rightarrow> real \<Rightarrow> DatasetRow list \<Rightarrow> DatasetRow list list
     \<Rightarrow> ((DatasetRow list + real \<times> DatasetRow list) \<times> DatasetRow list list) option" where
  "yieldLoop 0 sectorRows strict targetN minY pool pools = None"
| "yieldLoop (Suc fuel) sectorRows strict targetN minY pool pools =
     (if length pool < targetN \<and> minY > yieldTo strict
      then (let minY' = max (yieldTo strict) (minY - yieldStep strict);
                pool' = sortWith rankForDividend (screenRows sectorRows (strict\<lparr> minYield := Some minY' \<rparr>))
            in if length pool' \<ge> targetN then Some (Inl (take targetN pool'), pools @ [pool'])
               else yieldLoop fuel sectorRows strict targetN minY' pool' (pools @ [pool']))
      else Some (Inr (minY, pool), pools))"

fun capLoop ::
  "nat \<Rightarrow> DatasetRow list \<Rightarrow> StrictScreen \<Rightarrow> nat \<Rightarrow> real \<Rightarrow> real \<Rightarrow> DatasetRow list \<Rightarrow> DatasetRow list list
     \<Rightarrow> ((DatasetRow list + real \<times> DatasetRow list) \<times> DatasetRow list list) option" where
  "capLoop 0 sectorRows strict targetN minY minC pool pools = None"
| "capLoop (Suc fuel) sectorRows strict targetN minY minC pool pools =
     (if length pool < targetN \<and> minC > capTo strict
      then (let minC' = max (capTo strict) (of_int \<lfloor>minC * capFactor strict\<rfloor>);
                pool' = sortWith rankForDividend
                          (screenRows sectorRows (strict\<lparr> minYield := Some minY, minMktCap := Some minC' \<rparr>))
            in if length pool' \<ge> targetN then Some (Inl (take targetN pool'), pools @ [pool'])
               else capLoop fuel sectorRows strict targetN minY minC' pool' (pools @ [pool']))
      else Some (Inr (minC, pool), pools))"

text \<open>The price guard of the last resort.\<close>

definition priceGuard :: "StrictScreen \<Rightarrow> DatasetRow \<Rightarrow> bool" where
  "priceGuard strict r =
     (case getPrice r of
        None \<Rightarrow> False
      | Some px \<Rightarrow> px > 0 \<and> px \<ge> (case minPrice strict of Some p \<Rightarrow> p | None \<Rightarrow> 0))"

text \<open>
  \<^verbatim>\<open>fillSectorWithFallback\<close> with the list of the pools it computed, in order: the strict
  pool, the pools of the yield relaxation, those of the cap relaxation, and the last resort.
\<close>

definition fillSectorTrace ::
  "nat \<Rightarrow> DatasetRow list \<Rightarrow> StrictScreen \<Rightarrow> nat \<Rightarrow> (DatasetRow list \<times> DatasetRow list list) option" where
  "fillSectorTrace fuel sectorRows strict targetN =
     (let pool = sortWith rankForDividend (screenRows sectorRows strict)
      in if length pool \<ge> targetN then Some (take targetN pool, [pool])
         else (case yieldLoop fuel sectorRows strict targetN
                      (case minYield strict of Some y \<Rightarrow> y | None \<Rightarrow> 0) pool [pool] of
                 None \<Rightarrow> None
               | Some (Inl slice, pools) \<Rightarrow> Some (slice, pools)
               | Some (Inr (minY, pool1), pools1) \<Rightarrow>
                   (case capLoop fuel sectorRows strict targetN minY
                           (case minMktCap strict of Some c \<Rightarrow> c | None \<Rightarrow> 0) pool1 pools1 of
                      None \<Rightarrow> None
                    | Some (Inl slice, pools) \<Rightarrow> Some (slice, pools)
                    | Some (Inr (minC, pool2), pools2) \<Rightarrow>
                        (let pool3 = sortWith rankForDividend (filter (priceGuard strict) sectorRows)
                         in Some (take (min targetN (length pool3)) pool3, pools2 @ [pool3])))))"

definition fillSectorWithFallback ::
  "nat \<Rightarrow> DatasetRow list \<Rightarrow> StrictScreen \<Rightarrow> nat \<Rightarrow> DatasetRow list option" where
  "fillSectorWithFallback fuel sectorRows strict targetN =
     map_option fst (fillSectorTrace fuel sectorRows strict targetN)"

section \<open>portfolio: the sector-balanced builder\<close>

text \<open>
  Sector weights are the entries of the \<^verbatim>\<open>SectorWeights\<close> object in the order of
  \<^verbatim>\<open>Object.entries\<close>; \<^verbatim>\<open>weights[sector] ?? 0\<close> looks a key up.
\<close>

definition normalizeWeights :: "(string \<times> real) list \<Rightarrow> (string \<times> real) list" where
  "normalizeWeights w =
     (let sum = sum_list (map snd w)
      in if sum \<le> 0 then w else map (\<lambda>(k, v). (k, v / sum)) w)"

definition weightOf :: "(string \<times> real) list \<Rightarrow> string \<Rightarrow> real" where
  "weightOf weights sector = (case map_of weights sector of Some v \<Rightarrow> v | None \<Rightarrow> 0)"

record Bucket =
  bk_sector :: string
  bk_slots :: int
  bk_frac :: real

text \<open>
  The comparator \<^verbatim>\<open>b.frac - a.frac || a.sector.localeCompare(b.sector)\<close>; the collation
  \<^verbatim>\<open>localeCompare\<close> of the runtime is a parameter.
\<close>

definition bucketOrder :: "(string \<Rightarrow> string \<Rightarrow> int) \<Rightarrow> Bucket \<Rightarrow> Bucket \<Rightarrow> int" where
  "bucketOrder localeCompare a b =
     (if bk_frac b \<noteq> bk_frac a then (if bk_frac b > bk_frac a then 1 else -1)
      else localeCompare (bk_sector a) (bk_sector b))"

text \<open>\<^verbatim>\<open>for (let i = 0; used < totalSlots && i < floorSlots.length; i++, used++) floorSlots[i].slots++\<close>.\<close>

fun bumpSlots :: "int \<Rightarrow> int \<Rightarrow> Bucket list \<Rightarrow> Bucket list" where
  "bumpSlots used totalSlots [] = []"
| "bumpSlots used totalSlots (b # bs) =
     (if used < totalSlots then b\<lparr> bk_slots := bk_slots b + 1 \<rparr> # bumpSlots (used + 1) totalSlots bs
      else b # bs)"

definition slotSplit :: "(string \<Rightarrow> string \<Rightarrow> int) \<Rightarrow> int \<Rightarrow> (string \<times> real) list \<Rightarrow> Bucket list" where
  "slotSplit localeCompare totalSlots sectors =
     (let floorSlots = map (\<lambda>(sec, w). let exact = real_of_int totalSlots * w
                                         in \<lparr> bk_sector = sec, bk_slots = \<lfloor>exact\<rfloor>,
                                              bk_frac = exact - of_int \<lfloor>exact\<rfloor> \<rparr>) sectors;
          used = sum_list (map bk_slots floorSlots)
      in bumpSlots used totalSlots (sortWith (bucketOrder localeCompare) floorSlots))"

definition strictOf :: "BuildOpts \<Rightarrow> StrictScreen" where
  "strictOf opts =
     \<lparr> minYield = opt_minDividendYield opts, minMktCap = opt_minMarketCap opts,
       minPrice = Some (case opt_minPrice opts of Some p \<Rightarrow> p | None \<Rightarrow> 0),
       includeList = opt_include opts, excludeList = opt_exclude opts,
       relaxYieldTo = opt_relaxYieldTo opts, relaxYieldStep = opt_relaxYieldStep opts,
       relaxCapTo = opt_relaxCapTo opts, relaxCapFactor = opt_relaxCapFactor opts \<rparr>"

text \<open>The first loop over the buckets: the fills pushed to \<^verbatim>\<open>chosen\<close>.\<close>

fun chooseFills :: "nat \<Rightarrow> DatasetRow list \<Rightarrow> StrictScreen \<Rightarrow> Bucket list \<Rightarrow> DatasetRow list option" where
  "chooseFills fuel base strict [] = Some []"
| "chooseFills fuel base strict (b # bs) =
     (if bk_slots b \<le> 0 then chooseFills fuel base strict bs
      else (case fillSectorWithFallback fuel (filter (\<lambda>r. sectorOf r = bk_sector b) base) strict
                   (nat (bk_slots b)) of
              None \<Rightarrow> None
            | Some fill \<Rightarrow> map_option (\<lambda>more. fill @ more) (chooseFills fuel base strict bs)))"

definition backfill :: "DatasetRow list \<Rightarrow> StrictScreen \<Rightarrow> int \<Rightarrow> DatasetRow list \<Rightarrow> DatasetRow list" where
  "backfill base strict totalSlots chosen =
     (let deficit = totalSlots - int (length chosen)
      in if deficit > 0
         then chosen @ take (nat deficit)
                (sortWith rankForDividend
                   (screenRows (filter (\<lambda>r. dr_ticker r \<notin> set (map dr_ticker chosen)) base) strict))
         else chosen)"

definition allocationOf :: "string \<Rightarrow> real \<Rightarrow> DatasetRow \<Rightarrow> Allocation" where
  "allocationOf sector perName r =
     \<lparr> al_ticker = dr_ticker r, al_dollars = perName,
       al_estShares = sharesFrom perName (case getPrice r of Some px \<Rightarrow> px | None \<Rightarrow> 0),
       al_sector = Some sector \<rparr>"

text \<open>The body of the second loop over the buckets: the allocations pushed for one bucket.\<close>

definition sectorAllocations :: "real \<Rightarrow> (string \<times> real) list \<Rightarrow> DatasetRow list \<Rightarrow> Bucket \<Rightarrow> Allocation list" where
  "sectorAllocations amount weights chosen b =
     (if bk_slots b \<le> 0 then []
      else (let names = take (nat (bk_slots b)) (filter (\<lambda>r. sectorOf r = bk_sector b) chosen)
            in if names = [] then []
               else (let sectorDollars = amount * weightOf weights (bk_sector b);
                         perName = sectorDollars / real (length names)
                     in map (allocationOf (bk_sector b) perName) names)))"

text \<open>The padding loop: the allocations it appends.\<close>

definition padding :: "real \<Rightarrow> int \<Rightarrow> DatasetRow list \<Rightarrow> Allocation list \<Rightarrow> Allocation list" where
  "padding amount totalSlots chosen allocations =
     (if int (length allocations) < totalSlots
      then (let remaining = filter (\<lambda>r. dr_ticker r \<notin> set (map al_ticker allocations)) chosen;
                perName = amount / real_of_int totalSlots
            in map (\<lambda>r. allocationOf (sectorOf r) perName r)
                 (take (nat (totalSlots - int (length allocations))) remaining))
      else [])"

text \<open>
  \<^verbatim>\<open>buildPortfolioSectorBalanced\<close>; \<open>None\<close> when a fallback loop does not end within the
  fuel.
\<close>

definition buildPortfolioSectorBalanced ::
  "(string \<Rightarrow> string \<Rightarrow> int) \<Rightarrow> nat \<Rightarrow> DatasetRow list \<Rightarrow> BuildOpts \<Rightarrow> (string \<times> real) list
     \<Rightarrow> Allocation list option" where
  "buildPortfolioSectorBalanced localeCompare fuel rows opts sectorWeights =
     (let weights = normalizeWeights sectorWeights;
          base = uniqByTicker rows;
          sectors = filter (\<lambda>(sec, w). w > 0) weights
      in if sectors = [] then Some []
         else (let totalSlots = max 1 (opt_n opts);
                   floorSlots = slotSplit localeCompare totalSlots sectors;
                   strict = strictOf opts
               in case chooseFills fuel base strict floorSlots of
                    None \<Rightarrow> None
                  | Some fills \<Rightarrow>
                      (let chosen = backfill base strict totalSlots fills
                       in if chosen = [] then Some []
                          else (let allocations = concat (map (sectorAllocations (opt_amount opts) weights chosen) floorSlots)
                                in Some (take (nat totalSlots)
                                          (allocations @ padding (opt_amount opts) totalSlots chosen allocations))))))"

section \<open>portfolio: notions used in the proofs\<close>

text \<open>The order of two floors, an absent floor being \<open>-Infinity\<close>.\<close>

definition floorLe :: "real option \<Rightarrow> real option \<Rightarrow> bool" where
  "floorLe a b = (case a of None \<Rightarrow> True | Some x \<Rightarrow> (case b of None \<Rightarrow> False | Some y \<Rightarrow> x \<le> y))"

text \<open>
  The pools computed so far grow in size, none is larger than the current pool, and none is
  larger than the pool of the last resort.
\<close>

definition poolsInv :: "DatasetRow list \<Rightarrow> StrictScreen \<Rightarrow> DatasetRow list list \<Rightarrow> DatasetRow list \<Rightarrow> bool" where
  "poolsInv sectorRows strict pools pool =
     (pools \<noteq> [] \<and> sorted_wrt (\<lambda>a b. length a \<le> length b) pools \<and>
      (\<forall>p \<in> set pools. length p \<le> length pool) \<and>
      (\<forall>p \<in> set pools. length p \<le> length (filter (priceGuard strict) sectorRows)))"

text \<open>Rows and screens for running the fallback.\<close>

definition demoRow :: "string \<Rightarrow> string \<Rightarrow> real \<Rightarrow> real \<Rightarrow> real \<Rightarrow> DatasetRow" where
  "demoRow t sec px y cap =
     \<lparr> dr_ticker = t, dr_sector = Some sec, dr_close = Some (Finite px), dr_price = None, dr_last = None,
       dr_dividend_yield = Some (Finite y), dr_dividendYield = None, dr_dy = None,
       dr_market_cap = Some (Finite cap), dr_marketCap = None, dr_market_capitalization = None \<rparr>"

definition demoStrict :: "real option \<Rightarrow> real option \<Rightarrow> StrictScreen" where
  "demoStrict y c =
     \<lparr> minYield = y, minMktCap = c, minPrice = Some 0, includeList = None, excludeList = None,
       relaxYieldTo = None, relaxYieldStep = None, relaxCapTo = None, relaxCapFactor = None \<rparr>"

text \<open>
  A number of iterations that suffices for both relaxation loops when the yield step is
  positive, the cap factor is below 1 and the cap target is not negative.
\<close>

definition enoughFuel :: "StrictScreen \<Rightarrow> nat" where
  "enoughFuel strict =
     Suc (max (nat \<lceil>((case minYield strict of Some y \<Rightarrow> y | None \<Rightarrow> 0) - yieldTo strict) / yieldStep strict\<rceil>)
              (nat \<lceil>case minMktCap strict of Some c \<Rightarrow> c | None \<Rightarrow> 0\<rceil>))"

definition demoOpts :: "real \<Rightarrow> int \<Rightarrow> BuildOpts" where
  "demoOpts amount n =
     \<lparr> opt_amount = amount, opt_n = n, opt_minDividendYield = None, opt_minMarketCap = None,
       opt_minPrice = None, opt_include = None, opt_exclude = None, opt_relaxYieldTo = None,
       opt_relaxYieldStep = None, opt_relaxCapTo = None, opt_relaxCapFactor = None \<rparr>"

text \<open>
  An eligible candidate: a row with a ticker that is not excluded and a valid price, that is, a
  row that the screen keeps once both floors are removed.
\<close>

definition eligible :: "StrictScreen \<Rightarrow> DatasetRow \<Rightarrow> bool" where
  "eligible strict r = screenKeeps (strict\<lparr> minYield := None, minMktCap := None \<rparr>) r"

text \<open>The bucket that \<^verbatim>\<open>floorSlots\<close> holds for a sector and its weight, before the sort.\<close>

definition floorBucket :: "int \<Rightarrow> string \<times> real \<Rightarrow> Bucket" where
  "floorBucket T sw = (let exact = real_of_int T * snd sw
     in \<lparr> bk_sector = fst sw, bk_slots = \<lfloor>exact\<rfloor>, bk_frac = exact - of_int \<lfloor>exact\<rfloor> \<rparr>)"

text \<open>Three technology names and one utility, all with valid prices.\<close>

definition demoRows :: "DatasetRow list" where
  "demoRows = [demoRow ''AAA'' ''Tech'' 10 3 1000, demoRow ''AAB'' ''Tech'' 10 2 1000,
               demoRow ''AAC'' ''Tech'' 10 1 1000, demoRow ''BBB'' ''Utilities'' 20 4 1000]"

section \<open>Relative Strength Index\<close>









section \<open>getQuickStats: helper lemmas\<close>





lemma finnhubGet_Inr: "\<exists>r. fst (finnhubGet e url w) = Inr r"
  by (auto simp: finnhubGet_def split: prod.splits sum.splits)



lemma getLiveQuote_Inr: "\<exists>r. fst (getLiveQuote e t w) = Inr r"
  using finnhubGet_Inr[of e "QuoteUrl (norm t)" w]
  by (auto simp: getLiveQuote_def Let_def split: option.splits prod.splits sum.splits)

lemma getLiveMetrics_Inr: "\<exists>r. fst (getLiveMetrics e t w) = Inr r"
  using finnhubGet_Inr[of e "MetricUrl (norm t)" w]
  by (auto simp: getLiveMetrics_def Let_def split: option.splits prod.splits sum.splits)

lemma getLiveCloses_Inr: "\<exists>r. fst (getLiveCloses e t w) = Inr r"
  using finnhubGet_Inr[of e "CandleUrl (norm t) (clock w div 1000 - 400 * 24 * 60 * 60) (clock w div 1000)" w]
  by (auto simp: getLiveCloses_def Let_def split: option.splits prod.splits sum.splits)

lemma loadDatasetModule_Inr: "\<exists>r. loadDatasetModule e w = (Inr r, w)"
  by (simp add: loadDatasetModule_def)

lemma loadDatasetJson_Inr: "\<exists>r. fst (loadDatasetJson e w) = Inr r"
  by (auto simp: loadDatasetJson_def split: option.splits prod.splits sum.splits)

lemma loadRow_Inr: "\<exists>r. fst (loadRow e t w) = Inr r"
  using loadDatasetModule_Inr[of e w] loadDatasetJson_Inr[of e w]
  by (auto simp: loadRow_def Let_def split: option.splits prod.splits sum.splits)

lemma getQuickStats_shape:
  "\<exists>row liveQ liveM liveCloses.
     fst (loadRow e (norm t) w) = Inr row \<and>
     fst (getQuickStats e t w) = Inr (quickStats row liveQ liveM liveCloses)"
proof -
  obtain row w1 where lr: "loadRow e (norm t) w = (Inr row, w1)"
    using loadRow_Inr[of e "norm t" w] by (cases "loadRow e (norm t) w") auto
  obtain q wq where gq: "getLiveQuote e (norm t) w1 = (Inr q, wq)"
    using getLiveQuote_Inr[of e "norm t" w1] by (cases "getLiveQuote e (norm t) w1") auto
  obtain m wm where gm: "getLiveMetrics e (norm t) (wq\<lparr>clock := clock w1\<rparr>) = (Inr m, wm)"
    using getLiveMetrics_Inr[of e "norm t" "wq\<lparr>clock := clock w1\<rparr>"]
    by (cases "getLiveMetrics e (norm t) (wq\<lparr>clock := clock w1\<rparr>)") auto
  obtain c wc where gc: "getLiveCloses e (norm t) (wm\<lparr>clock := clock w1\<rparr>) = (Inr c, wc)"
    using getLiveCloses_Inr[of e "norm t" "wm\<lparr>clock := clock w1\<rparr>"]
    by (cases "getLiveCloses e (norm t) (wm\<lparr>clock := clock w1\<rparr>)") auto
  have "fst (getQuickStats e t w) = Inr (quickStats row q m c)"
    by (simp add: getQuickStats_def Let_def lr gq gm gc)
  with lr show ?thesis by auto
qed




lemma quickStats_trend:
  "qs_maTrend (quickStats row liveQ liveM liveCloses) =
     Some (trendFromMomentum (momentumPct (closesOf row liveCloses) 15)
             (qs_pctVsMA50 (quickStats row liveQ liveM liveCloses)))"
  by (simp add: quickStats_def Let_def)

lemma trend_flat: "trendFromMomentum None None = Flat"
  by (simp add: trendFromMomentum_def)













lemma norm_AAPL: "norm ''AAPL'' = ''AAPL''" "norm ''aapl'' = ''AAPL''"
  by (simp_all add: norm_def trim_def toUpperCase_def upperChar_def isWhiteSpace_def)




section \<open>getQuickStats and the caches\<close>






text \<open>
  C10. \<^verbatim>\<open>getQuickStats\<close> always returns the statistics assembled by \<open>quickStats\<close>, whose
  \<open>maTrend\<close> is always present and one of up, down, flat; when neither the momentum over the
  closes nor \<open>pctVsMA50\<close> is computable it is flat.
\<close>

theorem maTrend_never_undefined:
  "(\<exists>row liveQ liveM liveCloses.
       fst (getQuickStats e ticker w) = Inr (quickStats row liveQ liveM liveCloses)) \<and>
   qs_maTrend (quickStats row' q m c) \<in> {Some Up, Some Down, Some Flat} \<and>
   (momentumPct (closesOf row' c) 15 = None \<and> qs_pctVsMA50 (quickStats row' q m c) = None \<longrightarrow>
      qs_maTrend (quickStats row' q m c) = Some Flat)"
proof (intro conjI impI)
  show "\<exists>row liveQ liveM liveCloses.
       fst (getQuickStats e ticker w) = Inr (quickStats row liveQ liveM liveCloses)"
    using getQuickStats_shape[of e ticker w] by blast
next
  show "qs_maTrend (quickStats row' q m c) \<in> {Some Up, Some Down, Some Flat}"
    unfolding quickStats_trend
    by (cases "trendFromMomentum (momentumPct (closesOf row' c) 15) (qs_pctVsMA50 (quickStats row' q m c))") simp_all
next
  assume "momentumPct (closesOf row' c) 15 = None \<and> qs_pctVsMA50 (quickStats row' q m c) = None"
  then show "qs_maTrend (quickStats row' q m c) = Some Flat"
    using quickStats_trend[of row' q m c] by (simp add: trend_flat)
qed

theorem maTrend_never_undefined_witness:
  "momentumPct (closesOf None (Some [1, 2, 3])) 15 = None \<and>
   qs_pctVsMA50 (quickStats None (Some 7) None (Some [1, 2, 3])) = None \<and>
   qs_maTrend (quickStats None (Some 7) None (Some [1, 2, 3])) = Some Flat"
proof -
  have a: "momentumPct (closesOf None (Some [1, 2, 3])) 15 = None"
    by (simp add: momentumPct_def closesOf_def)
  have b: "qs_pctVsMA50 (quickStats None (Some 7) None (Some [1, 2, 3])) = None"
    by (simp add: closesOf_def quickStats_def Let_def pctVsMA50_def derivedMA50_def numN_def resolvedPrice_def orElse_def)
  from maTrend_never_undefined[of offlineEnv "''AAPL''" emptyWorld None "Some 7" None "Some [1, 2, 3]"] a b
  show ?thesis by blast
qed




lemma live_quote_refetched:
  "getLiveQuote liveEnv ''AAPL'' (cachedWorld 61000) =
     (Inr (Some 123), (cachedWorld 61000)\<lparr> clock := 61007, requests := [Finnhub (QuoteUrl ''AAPL'') ''k''],
                                   quoteCache := [''AAPL'' \<mapsto> (61007, Some 123)] \<rparr>)"
  by (simp add: getLiveQuote_def finnhubGet_def finnhubGet_try_def fetch_def fresh_def Let_def liveEnv_def cachedWorld_def
      norm_AAPL TTL_QUOTE_def optProp_def getProp_def truthy_def isObject_def num_def)

section \<open>prices route: progressive fill\<close>

lemma fillOut_dom: "fillOut f ts t = Some v \<Longrightarrow> t \<in> set ts"
  by (simp add: fillOut_def split: if_splits)

lemma fetchProvider_dom: "fetchProvider e p ts t = Some v \<Longrightarrow> t \<in> set ts"
proof (cases p)
  case Polygon
  assume "fetchProvider e p ts t = Some v"
  then show ?thesis using Polygon
    by (auto simp: fetchProvider_def fetchPolygon_def Let_def map_add_Some_iff dest!: fillOut_dom)
next
  case Iex
  assume "fetchProvider e p ts t = Some v"
  then show ?thesis using Iex
    by (auto simp: fetchProvider_def fetchIEX_def split: option.splits dest: fillOut_dom)
next
  case FinnhubP
  assume "fetchProvider e p ts t = Some v"
  then show ?thesis using FinnhubP
    by (auto simp: fetchProvider_def fetchFinnhub_def dest: fillOut_dom)
next
  case AlphaVantage
  assume "fetchProvider e p ts t = Some v"
  then show ?thesis using AlphaVantage
    by (auto simp: fetchProvider_def fetchAlphaVantage_def dest: fillOut_dom)
qed

lemma resolveLoop_inv:
  assumes "resolveLoop e tickers chain prices attempts = (prices', attempts')"
    and "\<forall>t. prices t = None \<longleftrightarrow> (\<forall>a\<in>set attempts. fetchProvider e (fst a) (snd a) t = None)"
    and "\<forall>a\<in>set attempts. \<forall>t v. fetchProvider e (fst a) (snd a) t = Some v \<longrightarrow> prices t = Some v"
  shows "\<exists>new. attempts' = attempts @ new \<and> map fst new = take (length new) chain \<and>
           (\<forall>t. prices' t = None \<longleftrightarrow> (\<forall>a\<in>set attempts'. fetchProvider e (fst a) (snd a) t = None)) \<and>
           (\<forall>a\<in>set attempts'. \<forall>t v. fetchProvider e (fst a) (snd a) t = Some v \<longrightarrow> prices' t = Some v) \<and>
           (\<forall>i<length new. snd (new ! i) \<noteq> [] \<and>
               snd (new ! i) = filter (\<lambda>t. \<forall>a\<in>set (attempts @ take i new). fetchProvider e (fst a) (snd a) t = None) tickers) \<and>
           (length new < length chain \<longrightarrow> (\<forall>t\<in>set tickers. prices' t \<noteq> None))"
  using assms
proof (induction chain arbitrary: prices attempts)
  case Nil
  then show ?case by (intro exI[of _ "[]"]) simp
next
  case (Cons p chain)
  let ?rem = "filter (\<lambda>t. prices t = None) tickers"
  show ?case
  proof (cases "?rem = []")
    case True
    then have all: "\<forall>t\<in>set tickers. prices t \<noteq> None" by (simp add: filter_empty_conv)
    from Cons.prems(1) True have "prices' = prices" "attempts' = attempts" by simp_all
    then show ?thesis using Cons.prems(2,3) all by (intro exI[of _ "[]"]) simp
  next
    case False
    let ?f = "fetchProvider e p ?rem"
    let ?prices2 = "prices ++ ?f"
    let ?att2 = "attempts @ [(p, ?rem)]"
    have rec: "resolveLoop e tickers chain ?prices2 ?att2 = (prices', attempts')"
      using Cons.prems(1) False by (simp add: Let_def)
    have disj: "\<And>t v. prices t = Some v \<Longrightarrow> ?f t = None"
    proof (rule ccontr)
      fix t v assume pv: "prices t = Some v" and "?f t \<noteq> None"
      then obtain u where "?f t = Some u" by auto
      then have "t \<in> set ?rem" by (rule fetchProvider_dom)
      then show False using pv by simp
    qed
    have i4: "\<forall>t. ?prices2 t = None \<longleftrightarrow> (\<forall>a\<in>set ?att2. fetchProvider e (fst a) (snd a) t = None)"
      using Cons.prems(2) by (auto simp: map_add_None)
    have i2: "\<forall>a\<in>set ?att2. \<forall>t v. fetchProvider e (fst a) (snd a) t = Some v \<longrightarrow> ?prices2 t = Some v"
    proof (intro ballI allI impI)
      fix a t v assume a: "a \<in> set ?att2" and fv: "fetchProvider e (fst a) (snd a) t = Some v"
      show "?prices2 t = Some v"
      proof (cases "a = (p, ?rem)")
        case True
        then show ?thesis using fv by (simp add: map_add_Some_iff)
      next
        case False
        then have "a \<in> set attempts" using a by simp
        then have pv: "prices t = Some v" using Cons.prems(3) fv by blast
        from disj[OF pv] pv show ?thesis by (simp add: map_add_Some_iff)
      qed
    qed
    from Cons.IH[OF rec i4 i2] obtain new2 where
      n1: "attempts' = ?att2 @ new2" and
      n2: "map fst new2 = take (length new2) chain" and
      n3: "\<forall>t. prices' t = None \<longleftrightarrow> (\<forall>a\<in>set attempts'. fetchProvider e (fst a) (snd a) t = None)" and
      n4: "\<forall>a\<in>set attempts'. \<forall>t v. fetchProvider e (fst a) (snd a) t = Some v \<longrightarrow> prices' t = Some v" and
      n5: "\<forall>i<length new2. snd (new2 ! i) \<noteq> [] \<and>
               snd (new2 ! i) = filter (\<lambda>t. \<forall>a\<in>set (?att2 @ take i new2). fetchProvider e (fst a) (snd a) t = None) tickers" and
      n6: "length new2 < length chain \<longrightarrow> (\<forall>t\<in>set tickers. prices' t \<noteq> None)"
      by blast
    let ?new = "(p, ?rem) # new2"
    have remeq: "?rem = filter (\<lambda>t. \<forall>a\<in>set attempts. fetchProvider e (fst a) (snd a) t = None) tickers"
      using Cons.prems(2) by (intro filter_cong) simp_all
    have m5: "\<forall>i<length ?new. snd (?new ! i) \<noteq> [] \<and>
               snd (?new ! i) = filter (\<lambda>t. \<forall>a\<in>set (attempts @ take i ?new). fetchProvider e (fst a) (snd a) t = None) tickers"
    proof (intro allI impI)
      fix i assume i: "i < length ?new"
      show "snd (?new ! i) \<noteq> [] \<and>
               snd (?new ! i) = filter (\<lambda>t. \<forall>a\<in>set (attempts @ take i ?new). fetchProvider e (fst a) (snd a) t = None) tickers"
      proof (cases i)
        case 0
        then show ?thesis using False remeq by simp
      next
        case (Suc j)
        then have j: "j < length new2" using i by simp
        have eq: "attempts @ take i ?new = ?att2 @ take j new2" using Suc by simp
        have nth: "?new ! i = new2 ! j" using Suc by simp
        from n5[rule_format, OF j] show ?thesis unfolding eq nth .
      qed
    qed
    have "attempts' = attempts @ ?new" using n1 by simp
    moreover have "map fst ?new = take (length ?new) (p # chain)" using n2 by simp
    moreover have "length ?new < length (p # chain) \<longrightarrow> (\<forall>t\<in>set tickers. prices' t \<noteq> None)"
      using n6 by simp
    ultimately show ?thesis using n3 n4 m5 by blast
  qed
qed

lemma find_ORDER_name:
  "find (\<lambda>p. providerName p = n) ORDER = Some p \<longleftrightarrow> providerName p = n"
  by (cases p) (auto simp: ORDER_def providerName_def)

lemma providerOrder_eq:
  "providerOrder e =
     (case find (\<lambda>p. providerName p = PREFERRED e) ORDER of
        Some p \<Rightarrow> if hasProvider e p then [p] else []
      | None \<Rightarrow> []) @
     filter (\<lambda>p. hasProvider e p \<and> providerName p \<noteq> PREFERRED e) ORDER"
  by (auto simp: providerOrder_def Let_def split: option.splits intro: filter_cong)

lemma demo_order: "providerOrder pricesDemoEnv = [FinnhubP, Polygon]"
  by (simp add: providerOrder_def PREFERRED_def toLowerCase_def lowerChar_def ORDER_def providerName_def
      hasProvider_def pricesDemoEnv_def)

lemma demo_tickers: "uniq [] (filter (\<lambda>t. t \<noteq> []) (map normTicker [''aapl '', ''msft'', '''', ''AAPL''])) = [''AAPL'', ''MSFT'']"
  by (simp add: normTicker_def trim_def toUpperCase_def upperChar_def isWhiteSpace_def)

lemma demo_finnhub:
  "fetchProvider pricesDemoEnv FinnhubP [''AAPL'', ''MSFT''] ''AAPL'' = Some (10124 / 100)"
  "fetchProvider pricesDemoEnv FinnhubP [''AAPL'', ''MSFT''] ''MSFT'' = None"
  by (simp_all add: fetchProvider_def fetchFinnhub_def fillOut_def okJson_def pricesDemoEnv_def
      optProp_def getProp_def coalesce_def nullish_def round2_def)

lemma demo_polygon:
  "fetchProvider pricesDemoEnv Polygon [''MSFT''] ''MSFT'' = Some 50"
  by (simp add: fetchProvider_def fetchPolygon_def polygonLast_def polygonPrev_def fillOut_def okJson_def pricesDemoEnv_def
      optProp_def optKey_def parseIndex_def digitOf_def getProp_def round2_def Let_def map_add_def)

lemma demo_loop:
  "snd (resolveLoop pricesDemoEnv [''AAPL'', ''MSFT''] [FinnhubP, Polygon] Map.empty []) =
     [(FinnhubP, [''AAPL'', ''MSFT'']), (Polygon, [''MSFT''])]"
  by (simp add: Let_def map_add_def demo_finnhub demo_polygon)

text \<open>
  C5. \<^verbatim>\<open>providerOrder\<close> is the preferred provider (when its name is valid and it is
  configured) followed by the other configured providers in the order polygon, iex, finnhub,
  alphavantage. \<^verbatim>\<open>resolvePrices\<close> throws when that chain is empty; otherwise the providers it
  tries are a prefix of the chain, in order; each is passed exactly the tickers that no earlier
  attempt priced (never an empty list); every price a provider returned is in the final prices,
  and a ticker is unpriced only if every attempt left it so; and the loop stops before the end of
  the chain only when every ticker is priced.
\<close>

theorem resolvePrices_progressive_fill:
  "providerOrder e =
     (case find (\<lambda>p. providerName p = PREFERRED e) ORDER of
        Some p \<Rightarrow> if hasProvider e p then [p] else []
      | None \<Rightarrow> []) @
     filter (\<lambda>p. hasProvider e p \<and> providerName p \<noteq> PREFERRED e) ORDER \<and>
   (providerOrder e = [] \<longrightarrow> resolvePrices e raw = Inl NoProviderConfigured) \<and>
   (providerOrder e \<noteq> [] \<longrightarrow>
      (\<exists>r. resolvePrices e raw = Inr r \<and> res_source r = hd (providerOrder e) \<and>
         map fst (res_attempts r) = take (length (res_attempts r)) (providerOrder e) \<and>
         (\<forall>i<length (res_attempts r).
             snd (res_attempts r ! i) \<noteq> [] \<and>
             snd (res_attempts r ! i) =
               filter (\<lambda>t. \<forall>a\<in>set (take i (res_attempts r)). fetchProvider e (fst a) (snd a) t = None)
                 (uniq [] (filter (\<lambda>t. t \<noteq> []) (map normTicker raw)))) \<and>
         (\<forall>a\<in>set (res_attempts r). \<forall>t v.
             fetchProvider e (fst a) (snd a) t = Some v \<longrightarrow> res_prices r t = Some v) \<and>
         (\<forall>t. res_prices r t = None \<longleftrightarrow>
             (\<forall>a\<in>set (res_attempts r). fetchProvider e (fst a) (snd a) t = None)) \<and>
         (length (res_attempts r) < length (providerOrder e) \<longrightarrow>
             (\<forall>t\<in>set (uniq [] (filter (\<lambda>t. t \<noteq> []) (map normTicker raw))). res_prices r t \<noteq> None))))"
proof (intro conjI impI)
  show "providerOrder e =
     (case find (\<lambda>p. providerName p = PREFERRED e) ORDER of
        Some p \<Rightarrow> if hasProvider e p then [p] else []
      | None \<Rightarrow> []) @
     filter (\<lambda>p. hasProvider e p \<and> providerName p \<noteq> PREFERRED e) ORDER"
    by (rule providerOrder_eq)
next
  assume "providerOrder e = []"
  then show "resolvePrices e raw = Inl NoProviderConfigured"
    by (simp add: resolvePrices_def Let_def)
next
  let ?tickers = "uniq [] (filter (\<lambda>t. t \<noteq> []) (map normTicker raw))"
  let ?chain = "providerOrder e"
  assume ne: "?chain \<noteq> []"
  obtain prices attempts where loop: "resolveLoop e ?tickers ?chain Map.empty [] = (prices, attempts)"
    by (cases "resolveLoop e ?tickers ?chain Map.empty []")
  let ?r = "\<lparr> res_prices = prices, res_source = hd ?chain,
              res_filled = length (filter (\<lambda>t. prices t \<noteq> None) ?tickers),
              res_attempts = attempts \<rparr>"
  have r: "resolvePrices e raw = Inr ?r"
    using ne loop by (simp add: resolvePrices_def Let_def)
  have "\<exists>new. attempts = [] @ new \<and> map fst new = take (length new) ?chain \<and>
           (\<forall>t. prices t = None \<longleftrightarrow> (\<forall>a\<in>set attempts. fetchProvider e (fst a) (snd a) t = None)) \<and>
           (\<forall>a\<in>set attempts. \<forall>t v. fetchProvider e (fst a) (snd a) t = Some v \<longrightarrow> prices t = Some v) \<and>
           (\<forall>i<length new. snd (new ! i) \<noteq> [] \<and>
               snd (new ! i) = filter (\<lambda>t. \<forall>a\<in>set ([] @ take i new). fetchProvider e (fst a) (snd a) t = None) ?tickers) \<and>
           (length new < length ?chain \<longrightarrow> (\<forall>t\<in>set ?tickers. prices t \<noteq> None))"
    by (rule resolveLoop_inv[OF loop]) simp_all
  then obtain new where
    n1: "attempts = [] @ new" and
    n2: "map fst new = take (length new) ?chain" and
    n3: "\<forall>t. prices t = None \<longleftrightarrow> (\<forall>a\<in>set attempts. fetchProvider e (fst a) (snd a) t = None)" and
    n4: "\<forall>a\<in>set attempts. \<forall>t v. fetchProvider e (fst a) (snd a) t = Some v \<longrightarrow> prices t = Some v" and
    n5: "\<forall>i<length new. snd (new ! i) \<noteq> [] \<and>
            snd (new ! i) = filter (\<lambda>t. \<forall>a\<in>set ([] @ take i new). fetchProvider e (fst a) (snd a) t = None) ?tickers" and
    n6: "length new < length ?chain \<longrightarrow> (\<forall>t\<in>set ?tickers. prices t \<noteq> None)"
    by blast
  have new: "new = attempts" using n1 by simp
  show "\<exists>r. resolvePrices e raw = Inr r \<and> res_source r = hd ?chain \<and>
         map fst (res_attempts r) = take (length (res_attempts r)) ?chain \<and>
         (\<forall>i<length (res_attempts r).
             snd (res_attempts r ! i) \<noteq> [] \<and>
             snd (res_attempts r ! i) =
               filter (\<lambda>t. \<forall>a\<in>set (take i (res_attempts r)). fetchProvider e (fst a) (snd a) t = None) ?tickers) \<and>
         (\<forall>a\<in>set (res_attempts r). \<forall>t v.
             fetchProvider e (fst a) (snd a) t = Some v \<longrightarrow> res_prices r t = Some v) \<and>
         (\<forall>t. res_prices r t = None \<longleftrightarrow>
             (\<forall>a\<in>set (res_attempts r). fetchProvider e (fst a) (snd a) t = None)) \<and>
         (length (res_attempts r) < length ?chain \<longrightarrow>
             (\<forall>t\<in>set ?tickers. res_prices r t \<noteq> None))"
  proof (intro exI[of _ ?r] conjI)
    show "resolvePrices e raw = Inr ?r" by (rule r)
    show "res_source ?r = hd ?chain" by simp
    show "map fst (res_attempts ?r) = take (length (res_attempts ?r)) ?chain"
      using n2 unfolding new by simp
    show "\<forall>i<length (res_attempts ?r).
             snd (res_attempts ?r ! i) \<noteq> [] \<and>
             snd (res_attempts ?r ! i) =
               filter (\<lambda>t. \<forall>a\<in>set (take i (res_attempts ?r)). fetchProvider e (fst a) (snd a) t = None) ?tickers"
      using n5[unfolded new append_Nil] unfolding resolved.select_convs .
    show "\<forall>a\<in>set (res_attempts ?r). \<forall>t v.
             fetchProvider e (fst a) (snd a) t = Some v \<longrightarrow> res_prices ?r t = Some v"
      using n4 unfolding resolved.select_convs .
    show "\<forall>t. res_prices ?r t = None \<longleftrightarrow>
             (\<forall>a\<in>set (res_attempts ?r). fetchProvider e (fst a) (snd a) t = None)"
      using n3 unfolding resolved.select_convs .
    show "length (res_attempts ?r) < length ?chain \<longrightarrow>
             (\<forall>t\<in>set ?tickers. res_prices ?r t \<noteq> None)"
      using n6[unfolded new] unfolding resolved.select_convs .
  qed
qed

theorem resolvePrices_progressive_fill_witness:
  "providerOrder pricesDemoEnv = [FinnhubP, Polygon] \<and>
   (\<exists>r. resolvePrices pricesDemoEnv [''aapl '', ''msft'', '''', ''AAPL''] = Inr r \<and>
        res_source r = FinnhubP \<and>
        res_attempts r = [(FinnhubP, [''AAPL'', ''MSFT'']), (Polygon, [''MSFT''])] \<and>
        res_prices r ''AAPL'' = Some (10124 / 100) \<and> res_prices r ''MSFT'' = Some 50)"
proof -
  let ?raw = "[''aapl '', ''msft'', '''', ''AAPL'']"
  have ne: "providerOrder pricesDemoEnv \<noteq> []" by (simp add: demo_order)
  from resolvePrices_progressive_fill[of pricesDemoEnv ?raw] ne
  obtain r where r: "resolvePrices pricesDemoEnv ?raw = Inr r"
    and src: "res_source r = hd (providerOrder pricesDemoEnv)"
    and kept: "\<forall>a\<in>set (res_attempts r). \<forall>t v.
             fetchProvider pricesDemoEnv (fst a) (snd a) t = Some v \<longrightarrow> res_prices r t = Some v"
    by blast
  have att: "res_attempts r = [(FinnhubP, [''AAPL'', ''MSFT'']), (Polygon, [''MSFT''])]"
  proof -
    have "res_attempts r = snd (resolveLoop pricesDemoEnv [''AAPL'', ''MSFT''] [FinnhubP, Polygon] Map.empty [])"
      using r unfolding resolvePrices_def Let_def demo_order demo_tickers
      by (auto simp del: resolveLoop.simps split: prod.splits)
    then show ?thesis by (simp only: demo_loop)
  qed
  have "res_prices r ''AAPL'' = Some (10124 / 100)"
    using kept[rule_format, of "(FinnhubP, [''AAPL'', ''MSFT''])" "''AAPL''"] demo_finnhub(1) att by simp
  moreover have "res_prices r ''MSFT'' = Some 50"
    using kept[rule_format, of "(Polygon, [''MSFT''])" "''MSFT''"] demo_polygon att by simp
  ultimately show ?thesis using r src att demo_order by simp
qed

section \<open>tickers: the resolution stages\<close>

lemma uniq_Nil_iff: "uniq seen xs = [] \<longleftrightarrow> set xs \<subseteq> set seen"
  by (induction xs arbitrary: seen) auto

lemma symbol_match_wins:
  assumes "symbolsOf companies text \<noteq> []" "preferLatest opts \<noteq> Some False"
  shows "extractTickersRich companies text opts =
           \<lparr> bestTicker = Some (last (uniq [] (symbolsOf companies text))),
             allTickers = uniq [] (symbolsOf companies text),
             matchedBy = Some BySymbol, confidence = 1, reason = ExplicitTicker \<rparr>"
proof -
  have "uniq [] (symbolsOf companies text) \<noteq> []"
    using assms(1) by (auto simp: uniq_Nil_iff)
  then show ?thesis using assms(2) by (simp add: extractTickersRich_def Let_def)
qed

lemma tokens_restated: "tokenize ''SPY or QQQ? no, SPY'' = [''SPY'', ''or'', ''QQQ?'', ''no'', ''SPY'']"
  by (simp add: tokenize_def isSeparator_def isWhiteSpace_def)

lemma symbols_restated: "symbolsOf companies ''SPY or QQQ? no, SPY'' = [''SPY'', ''QQQ'', ''SPY'']"
  unfolding symbolsOf_def tokens_restated
  by (simp add: coreOf_def symbolShape_def isUpper_def toUpperCase_def upperChar_def TICKERS_SET_def EXTRA_TICKERS_def Let_def)

text \<open>
  C2 at a text that restates a symbol. The symbols found are SPY, QQQ, SPY; the de-duplication
  through \<^verbatim>\<open>new Set\<close> keeps first occurrences, so the last element of the de-duplicated list
  is QQQ, although the last symbol of the text is SPY. This holds for every company table, since
  both symbols are in \<^verbatim>\<open>EXTRA_TICKERS\<close>.
\<close>

theorem restated_symbol_loses:
  "symbolsOf companies ''SPY or QQQ? no, SPY'' = [''SPY'', ''QQQ'', ''SPY''] \<and>
   bestTicker (extractTickersRich companies ''SPY or QQQ? no, SPY'' noOpts) = Some ''QQQ''"
  by (simp add: extractTickersRich_def symbols_restated noOpts_def Let_def)

text \<open>The scenario of the specification: the explicit symbol beats the company mention.\<close>

lemma explicit_beats_company:
  "extractTickersRich demoCompanies ''I love Amazon but buy 10 TSLA'' noOpts =
     \<lparr> bestTicker = Some ''TSLA'', allTickers = [''TSLA''], matchedBy = Some BySymbol,
       confidence = 1, reason = ExplicitTicker \<rparr> \<and>
   bestTicker (extractTickersRich demoCompanies ''I love Amazon'' noOpts) = Some ''AMZN''"
  by code_simp

text \<open>
  C9. When no symbol is found and the company stage returns nothing: a ticker is returned only
  if it is the upper-cased cookie or client ticker and a member of the known tickers, with
  confidence 0.25; when neither supplied ticker is known the no-match result is returned; a known
  cookie ticker is returned as such whatever the client hint is; a known client hint is returned
  when the cookie ticker is unknown or absent.
\<close>

theorem contextual_fallback:
  assumes "symbolsOf companies text = []" and "companyMatch companies text = None"
  shows "(\<forall>t. bestTicker (extractTickersRich companies text opts) = Some t \<longrightarrow>
            t \<in> TICKERS_SET companies \<and>
            (map_option toUpperCase (lastCookieTicker opts) = Some t \<or>
             map_option toUpperCase (lastClientTicker opts) = Some t) \<and>
            confidence (extractTickersRich companies text opts) = 25 / 100 \<and>
            matchedBy (extractTickersRich companies text opts) \<in> {Some ByCookie, Some ByClientHint}) \<and>
         ((\<forall>c. lastCookieTicker opts = Some c \<longrightarrow> toUpperCase c \<notin> TICKERS_SET companies) \<and>
          (\<forall>c. lastClientTicker opts = Some c \<longrightarrow> toUpperCase c \<notin> TICKERS_SET companies) \<longrightarrow>
            extractTickersRich companies text opts =
              \<lparr> bestTicker = None, allTickers = [], matchedBy = None, confidence = 0,
                reason = NoTickerFound \<rparr>) \<and>
         (\<forall>c. lastCookieTicker opts = Some c \<and> toUpperCase c \<noteq> [] \<and> toUpperCase c \<in> TICKERS_SET companies \<longrightarrow>
            extractTickersRich companies text opts =
              \<lparr> bestTicker = Some (toUpperCase c), allTickers = [toUpperCase c],
                matchedBy = Some ByCookie, confidence = 25 / 100, reason = PriorContext \<rparr>) \<and>
         (\<forall>c. (\<forall>k. lastCookieTicker opts = Some k \<longrightarrow> toUpperCase k \<notin> TICKERS_SET companies) \<and>
              lastClientTicker opts = Some c \<and> toUpperCase c \<noteq> [] \<and> toUpperCase c \<in> TICKERS_SET companies \<longrightarrow>
            extractTickersRich companies text opts =
              \<lparr> bestTicker = Some (toUpperCase c), allTickers = [toUpperCase c],
                matchedBy = Some ByClientHint, confidence = 25 / 100, reason = PriorContext \<rparr>)"
proof -
  have ex: "extractTickersRich companies text opts =
      (case fallbackTicker companies opts of
         Some fb \<Rightarrow>
           \<lparr> bestTicker = Some fb, allTickers = [fb],
             matchedBy = Some (if map_option toUpperCase (lastCookieTicker opts) = Some fb
                               then ByCookie else ByClientHint),
             confidence = 25 / 100, reason = PriorContext \<rparr>
       | None \<Rightarrow>
           \<lparr> bestTicker = None, allTickers = [], matchedBy = None, confidence = 0,
             reason = NoTickerFound \<rparr>)"
    using assms by (simp add: extractTickersRich_def Let_def)
  show ?thesis
    unfolding ex
    by (cases "lastCookieTicker opts"; cases "lastClientTicker opts")
       (auto simp: fallbackTicker_def split: option.splits if_splits)
qed

lemma hi_symbols: "symbolsOf companies ''hi'' = []"
  by (simp add: symbolsOf_def tokenize_def isSeparator_def isWhiteSpace_def coreOf_def symbolShape_def isUpper_def Let_def)

lemma hi_company: "companyMatch companies ''hi'' = None"
  by (simp add: companyMatch_def mentionsOf_def mentionOf_def normPhrase_def toLowerCase_def lowerChar_def
      isLowerAlnum_def isWhiteSpace_def trim_def splitSpaces_def Let_def)

theorem contextual_fallback_witness:
  "symbolsOf demoCompanies ''hi'' = [] \<and> companyMatch demoCompanies ''hi'' = None \<and>
   toUpperCase ''zzz'' \<notin> TICKERS_SET demoCompanies \<and> toUpperCase ''spy'' \<noteq> [] \<and> toUpperCase ''spy'' \<in> TICKERS_SET demoCompanies \<and>
   extractTickersRich demoCompanies ''hi'' \<lparr> lastCookieTicker = Some ''zzz'', lastClientTicker = Some ''spy'', preferLatest = None \<rparr> =
     \<lparr> bestTicker = Some ''SPY'', allTickers = [''SPY''],
       matchedBy = Some ByClientHint, confidence = 25 / 100, reason = PriorContext \<rparr> \<and>
   extractTickersRich demoCompanies ''hi'' \<lparr> lastCookieTicker = Some ''zzz'', lastClientTicker = None, preferLatest = None \<rparr> =
     \<lparr> bestTicker = None, allTickers = [], matchedBy = None, confidence = 0, reason = NoTickerFound \<rparr>"
proof -
  have up: "toUpperCase ''zzz'' = ''ZZZ''" "toUpperCase ''spy'' = ''SPY''"
    by (simp_all add: toUpperCase_def upperChar_def)
  have mem: "''ZZZ'' \<notin> TICKERS_SET demoCompanies" "''SPY'' \<in> TICKERS_SET demoCompanies"
    by (simp_all add: TICKERS_SET_def EXTRA_TICKERS_def demoCompanies_def)
  from contextual_fallback[OF hi_symbols hi_company,
         of demoCompanies "\<lparr> lastCookieTicker = Some ''zzz'', lastClientTicker = Some ''spy'', preferLatest = None \<rparr>"]
  have a: "extractTickersRich demoCompanies ''hi'' \<lparr> lastCookieTicker = Some ''zzz'', lastClientTicker = Some ''spy'', preferLatest = None \<rparr> =
     \<lparr> bestTicker = Some ''SPY'', allTickers = [''SPY''],
       matchedBy = Some ByClientHint, confidence = 25 / 100, reason = PriorContext \<rparr>"
    using up mem by simp
  from contextual_fallback[OF hi_symbols hi_company,
         of demoCompanies "\<lparr> lastCookieTicker = Some ''zzz'', lastClientTicker = None, preferLatest = None \<rparr>"]
  have b: "extractTickersRich demoCompanies ''hi'' \<lparr> lastCookieTicker = Some ''zzz'', lastClientTicker = None, preferLatest = None \<rparr> =
     \<lparr> bestTicker = None, allTickers = [], matchedBy = None, confidence = 0, reason = NoTickerFound \<rparr>"
    using up mem by simp
  show ?thesis using a b up mem hi_symbols hi_company by simp
qed

section \<open>portfolio: progressive fallback\<close>

lemma length_insertSorted: "length (insertSorted cmp x xs) = Suc (length xs)"
  by (induction xs) auto

lemma length_sortWith: "length (sortWith cmp xs) = length xs"
  unfolding sortWith_def by (induction xs) (auto simp: length_insertSorted)

lemma length_filter_mono:
  "(\<And>x. x \<in> set xs \<Longrightarrow> P x \<Longrightarrow> Q x) \<Longrightarrow> length (filter P xs) \<le> length (filter Q xs)"
  by (induction xs) auto

lemma screenKeeps_weaker:
  assumes "screenKeeps sc r" "floorLe (minYield sc') (minYield sc)" "floorLe (minMktCap sc') (minMktCap sc)"
    "minPrice sc' = minPrice sc" "excludeList sc' = excludeList sc"
  shows "screenKeeps sc' r"
  using assms
  by (auto simp: screenKeeps_def floorLe_def Let_def split: option.splits if_splits)

lemma screenRows_weaker:
  assumes "floorLe (minYield sc') (minYield sc)" "floorLe (minMktCap sc') (minMktCap sc)"
    "minPrice sc' = minPrice sc" "excludeList sc' = excludeList sc"
  shows "length (screenRows rows sc) \<le> length (screenRows rows sc')"
  unfolding screenRows_def
  by (rule length_filter_mono) (rule screenKeeps_weaker[OF _ assms])

lemma screenKeeps_priceGuard:
  "screenKeeps sc r \<Longrightarrow> minPrice sc = minPrice strict \<Longrightarrow> priceGuard strict r"
  by (auto simp: screenKeeps_def priceGuard_def Let_def split: option.splits if_splits)

lemma screenRows_le_lastResort:
  "minPrice sc = minPrice strict \<Longrightarrow>
   length (screenRows rows sc) \<le> length (filter (priceGuard strict) rows)"
  unfolding screenRows_def
  by (rule length_filter_mono) (rule screenKeeps_priceGuard)


lemma poolsInv_snoc:
  assumes "poolsInv rows strict pools pool" "length pool \<le> length pool'"
    "length pool' \<le> length (filter (priceGuard strict) rows)"
  shows "poolsInv rows strict (pools @ [pool']) pool'"
  using assms by (auto simp: poolsInv_def sorted_wrt_append intro: order_trans)

lemma yieldLoop_pools:
  assumes "yieldLoop fuel rows strict n minY pool pools = Some (out, pools')"
    and "0 \<le> yieldStep strict"
    and "poolsInv rows strict pools pool"
    and "length pool = length (screenRows rows (strict\<lparr> minYield := Some minY \<rparr>))"
  shows "(\<exists>pl. poolsInv rows strict pools' pl) \<and>
         (\<forall>mY pl. out = Inr (mY, pl) \<longrightarrow>
            poolsInv rows strict pools' pl \<and>
            length pl = length (screenRows rows (strict\<lparr> minYield := Some mY \<rparr>)))"
  using assms
proof (induction fuel arbitrary: minY pool pools)
  case 0
  then show ?case by simp
next
  case (Suc fuel)
  show ?case
  proof (cases "length pool < n \<and> minY > yieldTo strict")
    case False
    then have "out = Inr (minY, pool)" "pools' = pools" using Suc.prems(1) by auto
    then show ?thesis using Suc.prems(3,4) by auto
  next
    case True
    define minY' where "minY' = max (yieldTo strict) (minY - yieldStep strict)"
    define pool' where "pool' = sortWith rankForDividend (screenRows rows (strict\<lparr> minYield := Some minY' \<rparr>))"
    have le: "minY' \<le> minY" using True Suc.prems(2) by (simp add: minY'_def)
    have len': "length pool' = length (screenRows rows (strict\<lparr> minYield := Some minY' \<rparr>))"
      by (simp add: pool'_def length_sortWith)
    have "length (screenRows rows (strict\<lparr> minYield := Some minY \<rparr>)) \<le>
          length (screenRows rows (strict\<lparr> minYield := Some minY' \<rparr>))"
      by (rule screenRows_weaker) (use le in \<open>simp_all add: floorLe_def split: option.splits\<close>)
    then have grow: "length pool \<le> length pool'" using Suc.prems(4) len' by simp
    have fin: "length pool' \<le> length (filter (priceGuard strict) rows)"
      unfolding len' by (rule screenRows_le_lastResort) simp
    have inv': "poolsInv rows strict (pools @ [pool']) pool'"
      by (rule poolsInv_snoc[OF Suc.prems(3) grow fin])
    show ?thesis
    proof (cases "length pool' \<ge> n")
      case True
      then have "out = Inl (take n pool')" "pools' = pools @ [pool']"
        using Suc.prems(1) \<open>length pool < n \<and> minY > yieldTo strict\<close>
        by (auto simp: Let_def minY'_def pool'_def)
      then show ?thesis using inv' by auto
    next
      case False
      then have rec: "yieldLoop fuel rows strict n minY' pool' (pools @ [pool']) = Some (out, pools')"
        using Suc.prems(1) \<open>length pool < n \<and> minY > yieldTo strict\<close>
        by (auto simp: Let_def minY'_def pool'_def)
      show ?thesis by (rule Suc.IH[OF rec Suc.prems(2) inv' len'])
    qed
  qed
qed

lemma capLoop_pools:
  assumes "capLoop fuel rows strict n minY minC pool pools = Some (out, pools')"
    and "capFactor strict \<le> 1" and "0 \<le> capTo strict"
    and "poolsInv rows strict pools pool"
    and "minC > capTo strict \<longrightarrow>
           length pool \<le> length (screenRows rows (strict\<lparr> minYield := Some minY, minMktCap := Some minC \<rparr>))"
  shows "\<exists>pl. poolsInv rows strict pools' pl"
  using assms
proof (induction fuel arbitrary: minC pool pools)
  case 0
  then show ?case by simp
next
  case (Suc fuel)
  show ?case
  proof (cases "length pool < n \<and> minC > capTo strict")
    case False
    then have "pools' = pools" using Suc.prems(1) by auto
    then show ?thesis using Suc.prems(4) by auto
  next
    case True
    define minC' where "minC' = max (capTo strict) (of_int \<lfloor>minC * capFactor strict\<rfloor>)"
    define pool' where "pool' = sortWith rankForDividend
        (screenRows rows (strict\<lparr> minYield := Some minY, minMktCap := Some minC' \<rparr>))"
    have pos: "0 < minC" using True Suc.prems(3) by simp
    have "minC * capFactor strict \<le> minC * 1"
      using pos Suc.prems(2) by (intro mult_left_mono) simp_all
    moreover have "of_int \<lfloor>minC * capFactor strict\<rfloor> \<le> minC * capFactor strict"
      by (rule of_int_floor_le)
    ultimately have "of_int \<lfloor>minC * capFactor strict\<rfloor> \<le> minC" by linarith
    then have le: "minC' \<le> minC" using True by (simp add: minC'_def)
    have len': "length pool' = length (screenRows rows (strict\<lparr> minYield := Some minY, minMktCap := Some minC' \<rparr>))"
      by (simp add: pool'_def length_sortWith)
    have "length (screenRows rows (strict\<lparr> minYield := Some minY, minMktCap := Some minC \<rparr>)) \<le>
          length (screenRows rows (strict\<lparr> minYield := Some minY, minMktCap := Some minC' \<rparr>))"
      by (rule screenRows_weaker) (use le in \<open>simp_all add: floorLe_def split: option.splits\<close>)
    then have grow: "length pool \<le> length pool'" using Suc.prems(5) True len' by simp
    have fin: "length pool' \<le> length (filter (priceGuard strict) rows)"
      unfolding len' by (rule screenRows_le_lastResort) simp
    have inv': "poolsInv rows strict (pools @ [pool']) pool'"
      by (rule poolsInv_snoc[OF Suc.prems(4) grow fin])
    show ?thesis
    proof (cases "length pool' \<ge> n")
      case True
      then have "pools' = pools @ [pool']"
        using Suc.prems(1) \<open>length pool < n \<and> minC > capTo strict\<close>
        by (auto simp: Let_def minC'_def pool'_def)
      then show ?thesis using inv' by auto
    next
      case False
      then have rec: "capLoop fuel rows strict n minY minC' pool' (pools @ [pool']) = Some (out, pools')"
        using Suc.prems(1) \<open>length pool < n \<and> minC > capTo strict\<close>
        by (auto simp: Let_def minC'_def pool'_def)
      show ?thesis
        by (rule Suc.IH[OF rec Suc.prems(2,3) inv']) (simp add: len')
    qed
  qed
qed

text \<open>
  Where the steps are monotone: when a yield floor is supplied, the yield step is not negative,
  the cap factor is at most 1 and the cap target is not negative, the pools computed by
  \<^verbatim>\<open>fillSectorWithFallback\<close>, in the order of the steps, never decrease in size. In every
  case no screened pool with the same minimum price is larger than the pool of the last resort.
\<close>

lemma fallback_pools_monotone:
  assumes run: "fillSectorTrace fuel sectorRows strict targetN = Some (result, pools)"
    and y0: "minYield strict = Some y0"
    and step: "0 \<le> yieldStep strict" and factor: "capFactor strict \<le> 1" and to: "0 \<le> capTo strict"
  shows "sorted_wrt (\<lambda>a b. length a \<le> length b) pools \<and>
         (\<forall>p \<in> set pools. length p \<le> length (filter (priceGuard strict) sectorRows)) \<and>
         (\<forall>sc :: Screen. minPrice sc = minPrice strict \<longrightarrow>
            length (screenRows sectorRows sc) \<le> length (filter (priceGuard strict) sectorRows))"
proof -
  define pool where "pool = sortWith rankForDividend (screenRows sectorRows strict)"
  have s0: "strict\<lparr> minYield := Some y0 \<rparr> = strict" using y0 by simp
  have inv0: "poolsInv sectorRows strict [pool] pool"
    using screenRows_le_lastResort[of strict strict sectorRows]
    by (simp add: poolsInv_def pool_def length_sortWith)
  have len0: "length pool = length (screenRows sectorRows (strict\<lparr> minYield := Some y0 \<rparr>))"
    by (simp add: s0 pool_def length_sortWith)
  have "\<exists>pl. poolsInv sectorRows strict pools pl"
  proof (cases "length pool \<ge> targetN")
    case True
    then have "pools = [pool]" using run by (simp add: fillSectorTrace_def pool_def Let_def)
    then show ?thesis using inv0 by auto
  next
    case False
    obtain out1 pools1 where yl: "yieldLoop fuel sectorRows strict targetN y0 pool [pool] = Some (out1, pools1)"
      using run False y0
      by (cases "yieldLoop fuel sectorRows strict targetN y0 pool [pool]")
         (auto simp: fillSectorTrace_def pool_def Let_def)
    note Y = yieldLoop_pools[OF yl step inv0 len0]
    show ?thesis
    proof (cases out1)
      case (Inl sl)
      then have "pools = pools1" using run False y0 yl
        by (auto simp: fillSectorTrace_def pool_def Let_def)
      then show ?thesis using Y by blast
    next
      case (Inr mp)
      obtain minY pool1 where mp: "mp = (minY, pool1)" by (cases mp)
      have inv1: "poolsInv sectorRows strict pools1 pool1"
        and len1: "length pool1 = length (screenRows sectorRows (strict\<lparr> minYield := Some minY \<rparr>))"
        using Y Inr mp by blast+
      let ?c0 = "case minMktCap strict of Some c \<Rightarrow> c | None \<Rightarrow> 0"
      have J: "?c0 > capTo strict \<longrightarrow>
           length pool1 \<le> length (screenRows sectorRows (strict\<lparr> minYield := Some minY, minMktCap := Some ?c0 \<rparr>))"
      proof (cases "minMktCap strict")
        case None
        then show ?thesis using to by simp
      next
        case (Some c)
        then have "strict\<lparr> minYield := Some minY, minMktCap := Some ?c0 \<rparr> = strict\<lparr> minYield := Some minY \<rparr>"
          by simp
        then show ?thesis using len1 by simp
      qed
      obtain out2 pools2 where cl: "capLoop fuel sectorRows strict targetN minY ?c0 pool1 pools1 = Some (out2, pools2)"
        using run False y0 yl Inr mp
        by (cases "capLoop fuel sectorRows strict targetN minY ?c0 pool1 pools1")
           (auto simp: fillSectorTrace_def pool_def Let_def)
      from capLoop_pools[OF cl factor to inv1 J] obtain pl2 where inv2: "poolsInv sectorRows strict pools2 pl2"
        by blast
      show ?thesis
      proof (cases out2)
        case (Inl sl)
        then have "pools = pools2" using run False y0 yl \<open>out1 = Inr mp\<close> mp cl
          by (auto simp: fillSectorTrace_def pool_def Let_def)
        then show ?thesis using inv2 by blast
      next
        case (Inr mp2)
        let ?pool3 = "sortWith rankForDividend (filter (priceGuard strict) sectorRows)"
        have "pools = pools2 @ [?pool3]" using run False y0 yl \<open>out1 = Inr mp\<close> mp cl Inr
          by (auto simp: fillSectorTrace_def pool_def Let_def split: prod.splits)
        moreover have "poolsInv sectorRows strict (pools2 @ [?pool3]) ?pool3"
          using inv2 by (auto simp: poolsInv_def sorted_wrt_append length_sortWith)
        ultimately show ?thesis by auto
      qed
    qed
  qed
  then show ?thesis
    using screenRows_le_lastResort[of _ strict sectorRows] by (auto simp: poolsInv_def)
qed

lemma demo_getters:
  "getPrice (demoRow t sec px y cap) = Some px"
  "getYield (demoRow t sec px y cap) = Some y"
  "getMktCap (demoRow t sec px y cap) = Some cap"
  "dr_ticker (demoRow t sec px y cap) = t"
  by (simp_all add: demoRow_def getPrice_def getYield_def getMktCap_def orElse_def numN_def)

lemma clean_AAA: "cleanTicker ''AAA'' = ''AAA''" "cleanTicker ''BBB'' = ''BBB''"
  by (simp_all add: cleanTicker_def toUpperCase_def upperChar_def trim_def isWhiteSpace_def)

lemma sortWith_single: "sortWith cmp [x] = [x]" "sortWith cmp [] = []"
  by (simp_all add: sortWith_def)

text \<open>
  C8. The step that the code comments as "relax market cap floor" is not monotone when no
  yield floor is supplied (the default configuration): the strict screen then has no yield
  floor, but the cap relaxation screens with \<^verbatim>\<open>minYield: minY\<close> where
  \<^verbatim>\<open>minY = strict.minYield ?? 0\<close>, so that a floor of 0 appears in a step meant to lower a
  floor. With one row of yield -1, market cap 20e9 and price 10, a cap floor of 6e9 and a target
  of 2 names, the strict pool holds the row, the pool of the cap relaxation is empty, and the
  last resort holds the row again: the pool sizes are 1, 0, 1.
\<close>

theorem cap_relaxation_shrinks_pool:
  "fillSectorTrace 5 [demoRow ''AAA'' ''Utilities'' 10 (-1) 20000000000]
       (demoStrict None (Some 6000000000)) 2 =
     Some ([demoRow ''AAA'' ''Utilities'' 10 (-1) 20000000000],
           [[demoRow ''AAA'' ''Utilities'' 10 (-1) 20000000000], [],
            [demoRow ''AAA'' ''Utilities'' 10 (-1) 20000000000]])"
  by (simp add: fillSectorTrace_def screenRows_def screenKeeps_def demo_getters clean_AAA sortWith_single
      demoStrict_def yieldTo_def yieldStep_def capTo_def capFactor_def priceGuard_def Let_def
      numeral_2_eq_2 numeral_3_eq_3 eval_nat_numeral)

lemma demo_strict_sel:
  "minYield (demoStrict y c) = y" "minMktCap (demoStrict y c) = c" "minPrice (demoStrict y c) = Some 0"
  "excludeList (demoStrict y c) = None"
  "yieldTo (demoStrict y c) = 2" "yieldStep (demoStrict y c) = 1 / 2"
  "capTo (demoStrict y c) = 5000000000" "capFactor (demoStrict y c) = 8 / 10"
  by (simp_all add: demoStrict_def yieldTo_def yieldStep_def capTo_def capFactor_def)

lemma demo_run:
  "fillSectorTrace 9 [demoRow ''AAA'' ''Utilities'' 10 (36 / 10) 20000000000,
                      demoRow ''BBB'' ''Utilities'' 20 5 5500000000]
       (demoStrict (Some 4) (Some 6000000000)) 2 =
     Some ([demoRow ''BBB'' ''Utilities'' 20 5 5500000000, demoRow ''AAA'' ''Utilities'' 10 (36 / 10) 20000000000],
           [[], [demoRow ''AAA'' ''Utilities'' 10 (36 / 10) 20000000000],
            [demoRow ''AAA'' ''Utilities'' 10 (36 / 10) 20000000000],
            [demoRow ''AAA'' ''Utilities'' 10 (36 / 10) 20000000000],
            [demoRow ''AAA'' ''Utilities'' 10 (36 / 10) 20000000000],
            [demoRow ''BBB'' ''Utilities'' 20 5 5500000000, demoRow ''AAA'' ''Utilities'' 10 (36 / 10) 20000000000]])"
  by (simp add: fillSectorTrace_def screenRows_def screenKeeps_def demo_getters clean_AAA sortWith_def
      rankForDividend_def belowOpt_def
      demoStrict_def yieldTo_def yieldStep_def capTo_def capFactor_def priceGuard_def Let_def
      eval_nat_numeral)

lemma fallback_pools_monotone_example:
  "minYield (demoStrict (Some 4) (Some 6000000000)) = Some 4 \<and>
   0 \<le> yieldStep (demoStrict (Some 4) (Some 6000000000)) \<and>
   capFactor (demoStrict (Some 4) (Some 6000000000)) \<le> 1 \<and>
   0 \<le> capTo (demoStrict (Some 4) (Some 6000000000)) \<and>
   sorted_wrt (\<lambda>a b. length a \<le> length b)
     [[], [demoRow ''AAA'' ''Utilities'' 10 (36 / 10) 20000000000],
      [demoRow ''AAA'' ''Utilities'' 10 (36 / 10) 20000000000],
      [demoRow ''AAA'' ''Utilities'' 10 (36 / 10) 20000000000],
      [demoRow ''AAA'' ''Utilities'' 10 (36 / 10) 20000000000],
      [demoRow ''BBB'' ''Utilities'' 20 5 5500000000, demoRow ''AAA'' ''Utilities'' 10 (36 / 10) 20000000000]]"
proof -
  have h: "minYield (demoStrict (Some 4) (Some 6000000000)) = Some 4"
    "0 \<le> yieldStep (demoStrict (Some 4) (Some 6000000000))"
    "capFactor (demoStrict (Some 4) (Some 6000000000)) \<le> 1"
    "0 \<le> capTo (demoStrict (Some 4) (Some 6000000000))"
    by (simp_all add: demo_strict_sel)
  from fallback_pools_monotone[OF demo_run h] h show ?thesis by blast
qed

section \<open>portfolio: the relaxation loops end\<close>

lemma yieldLoop_fuel:
  assumes "0 < yieldStep strict" "fuel > nat \<lceil>(minY - yieldTo strict) / yieldStep strict\<rceil>"
  shows "yieldLoop fuel rows strict n minY pool pools \<noteq> None"
  using assms
proof (induction fuel arbitrary: minY pool pools)
  case 0
  then show ?case by simp
next
  case (Suc fuel)
  let ?s = "yieldStep strict" and ?to = "yieldTo strict"
  show ?case
  proof (cases "length pool < n \<and> minY > ?to")
    case False
    then show ?thesis by auto
  next
    case True
    define minY' where "minY' = max ?to (minY - ?s)"
    define pool' where "pool' = sortWith rankForDividend (screenRows rows (strict\<lparr> minYield := Some minY' \<rparr>))"
    have pos: "0 < (minY - ?to) / ?s" using True Suc.prems(1) by simp
    then have c1: "1 \<le> \<lceil>(minY - ?to) / ?s\<rceil>" by linarith
    have "(minY' - ?to) / ?s \<le> (minY - ?to) / ?s - 1 \<or> minY' = ?to"
    proof (cases "minY - ?s \<ge> ?to")
      case True
      then have "minY' = minY - ?s" by (simp add: minY'_def)
      then have "(minY' - ?to) / ?s = (minY - ?to) / ?s - 1"
        using Suc.prems(1) by (simp add: field_simps)
      then show ?thesis by simp
    next
      case False
      then show ?thesis by (simp add: minY'_def)
    qed
    then have "\<lceil>(minY' - ?to) / ?s\<rceil> \<le> \<lceil>(minY - ?to) / ?s\<rceil> - 1"
    proof
      assume "(minY' - ?to) / ?s \<le> (minY - ?to) / ?s - 1"
      then have "\<lceil>(minY' - ?to) / ?s\<rceil> \<le> \<lceil>(minY - ?to) / ?s - 1\<rceil>" by (rule ceiling_mono)
      then show ?thesis by simp
    next
      assume "minY' = ?to"
      then show ?thesis using c1 by simp
    qed
    then have fuel': "fuel > nat \<lceil>(minY' - ?to) / ?s\<rceil>" using Suc.prems(2) c1 by linarith
    show ?thesis
    proof (cases "length pool' \<ge> n")
      case True
      then show ?thesis using \<open>length pool < n \<and> minY > ?to\<close>
        by (simp add: Let_def minY'_def pool'_def)
    next
      case False
      have "yieldLoop (Suc fuel) rows strict n minY pool pools =
            yieldLoop fuel rows strict n minY' pool' (pools @ [pool'])"
        using False \<open>length pool < n \<and> minY > ?to\<close> by (simp add: Let_def minY'_def pool'_def)
      then show ?thesis using Suc.IH[OF Suc.prems(1) fuel'] by simp
    qed
  qed
qed

lemma yieldLoop_floor_le:
  assumes "yieldLoop fuel rows strict n minY pool pools = Some (Inr (mY, pl), pools')"
    and "0 \<le> yieldStep strict"
  shows "mY \<le> minY"
  using assms
proof (induction fuel arbitrary: minY pool pools)
  case 0
  then show ?case by simp
next
  case (Suc fuel)
  show ?case
  proof (cases "length pool < n \<and> minY > yieldTo strict")
    case False
    then show ?thesis using Suc.prems(1) by auto
  next
    case True
    define minY' where "minY' = max (yieldTo strict) (minY - yieldStep strict)"
    define pool' where "pool' = sortWith rankForDividend (screenRows rows (strict\<lparr> minYield := Some minY' \<rparr>))"
    have le: "minY' \<le> minY" using True Suc.prems(2) by (simp add: minY'_def)
    have "\<not> length pool' \<ge> n" using Suc.prems(1) True
      by (auto simp: Let_def minY'_def pool'_def split: if_splits)
    then have "yieldLoop fuel rows strict n minY' pool' (pools @ [pool']) = Some (Inr (mY, pl), pools')"
      using Suc.prems(1) True by (auto simp: Let_def minY'_def pool'_def)
    from Suc.IH[OF this Suc.prems(2)] le show ?thesis by simp
  qed
qed

lemma capLoop_fuel:
  assumes "capFactor strict < 1" "0 \<le> capTo strict"
    and "fuel \<ge> 1" "minC > capTo strict \<longrightarrow> fuel > nat \<lceil>minC\<rceil>"
  shows "capLoop fuel rows strict n minY minC pool pools \<noteq> None"
  using assms
proof (induction fuel arbitrary: minC pool pools)
  case 0
  then show ?case by simp
next
  case (Suc fuel)
  show ?case
  proof (cases "length pool < n \<and> minC > capTo strict")
    case False
    then show ?thesis by auto
  next
    case True
    define fl where "fl = \<lfloor>minC * capFactor strict\<rfloor>"
    define minC' where "minC' = max (capTo strict) (of_int fl)"
    define pool' where "pool' = sortWith rankForDividend
        (screenRows rows (strict\<lparr> minYield := Some minY, minMktCap := Some minC' \<rparr>))"
    have pos: "0 < minC" using True Suc.prems(2) by simp
    have big: "Suc fuel > nat \<lceil>minC\<rceil>" using True Suc.prems(4) by simp
    have "1 \<le> \<lceil>minC\<rceil>" using pos by linarith
    then have f1: "fuel \<ge> 1" using big by linarith
    have "minC * capFactor strict < minC * 1"
      using pos Suc.prems(1) by (intro mult_strict_left_mono) simp_all
    moreover have "of_int fl \<le> minC * capFactor strict" unfolding fl_def by (rule of_int_floor_le)
    ultimately have "of_int fl < minC" by linarith
    then have "fl < \<lceil>minC\<rceil>" by linarith
    then have flt: "fl < \<lceil>minC\<rceil>" .
    have f2: "minC' > capTo strict \<longrightarrow> fuel > nat \<lceil>minC'\<rceil>"
    proof
      assume gt: "minC' > capTo strict"
      then have eq: "minC' = of_int fl" and "of_int fl > capTo strict"
        by (auto simp: minC'_def max_def split: if_splits)
      then have "(0::real) < of_int fl" using Suc.prems(2) by linarith
      then have "0 < fl" by simp
      then have lt: "nat fl < nat \<lceil>minC\<rceil>" using flt by linarith
      have "nat \<lceil>minC'\<rceil> = nat fl" using eq by simp
      then show "fuel > nat \<lceil>minC'\<rceil>" using big lt by linarith
    qed
    show ?thesis
    proof (cases "length pool' \<ge> n")
      case True
      then show ?thesis using \<open>length pool < n \<and> minC > capTo strict\<close>
        by (simp add: Let_def minC'_def pool'_def fl_def)
    next
      case False
      have "capLoop (Suc fuel) rows strict n minY minC pool pools =
            capLoop fuel rows strict n minY minC' pool' (pools @ [pool'])"
        using False \<open>length pool < n \<and> minC > capTo strict\<close>
        by (simp add: Let_def minC'_def pool'_def fl_def)
      then show ?thesis using Suc.IH[OF Suc.prems(1,2) f1 f2] by simp
    qed
  qed
qed

lemma fillSectorTrace_fuel:
  assumes "0 < yieldStep strict" "capFactor strict < 1" "0 \<le> capTo strict"
    and "fuel \<ge> enoughFuel strict"
  shows "fillSectorTrace fuel rows strict n \<noteq> None"
proof -
  let ?y0 = "case minYield strict of Some y \<Rightarrow> y | None \<Rightarrow> 0"
  let ?c0 = "case minMktCap strict of Some c \<Rightarrow> c | None \<Rightarrow> 0"
  let ?pool = "sortWith rankForDividend (screenRows rows strict)"
  have fy: "fuel > nat \<lceil>(?y0 - yieldTo strict) / yieldStep strict\<rceil>"
    and fc: "fuel > nat \<lceil>?c0\<rceil>" and f1: "fuel \<ge> 1"
    using assms(4) by (simp_all add: enoughFuel_def)
  have y: "yieldLoop fuel rows strict n ?y0 ?pool [?pool] \<noteq> None"
    by (rule yieldLoop_fuel[OF assms(1) fy])
  have c: "\<And>minY pool pools. capLoop fuel rows strict n minY ?c0 pool pools \<noteq> None"
    by (rule capLoop_fuel[OF assms(2,3) f1]) (use fc in simp)
  show ?thesis
  proof (cases "length ?pool \<ge> n")
    case True
    then show ?thesis by (simp add: fillSectorTrace_def Let_def)
  next
    case False
    from y obtain out1 pools1 where yl: "yieldLoop fuel rows strict n ?y0 ?pool [?pool] = Some (out1, pools1)"
      by (cases "yieldLoop fuel rows strict n ?y0 ?pool [?pool]") auto
    show ?thesis
    proof (cases out1)
      case (Inl sl)
      then show ?thesis using False yl by (simp add: fillSectorTrace_def Let_def)
    next
      case (Inr mp)
      obtain minY pool1 where mp: "mp = (minY, pool1)" by (cases mp)
      from c[of minY pool1 pools1] obtain out2 pools2 where
        cl: "capLoop fuel rows strict n minY ?c0 pool1 pools1 = Some (out2, pools2)"
        by (cases "capLoop fuel rows strict n minY ?c0 pool1 pools1") auto
      show ?thesis using False yl Inr mp cl
        by (cases out2) (auto simp: fillSectorTrace_def Let_def split: prod.splits)
    qed
  qed
qed

section \<open>portfolio: sector-balanced allocation\<close>

lemma mset_insertSorted: "mset (insertSorted cmp x xs) = add_mset x (mset xs)"
  by (induction xs) auto

lemma mset_sortWith: "mset (sortWith cmp xs) = mset xs"
  unfolding sortWith_def by (induction xs) (auto simp: mset_insertSorted)

lemma set_sortWith: "set (sortWith cmp xs) = set xs"
  using mset_sortWith[of cmp xs] by (metis set_mset_mset)

lemma yieldLoop_slice:
  assumes "yieldLoop fuel rows strict n minY pool pools = Some (Inl sl, pools')"
  shows "length sl = n \<and> set sl \<subseteq> set rows"
  using assms
proof (induction fuel arbitrary: minY pool pools)
  case 0
  then show ?case by simp
next
  case (Suc fuel)
  define minY' where "minY' = max (yieldTo strict) (minY - yieldStep strict)"
  define pool' where "pool' = sortWith rankForDividend (screenRows rows (strict\<lparr> minYield := Some minY' \<rparr>))"
  have sub: "set pool' \<subseteq> set rows" by (auto simp: pool'_def set_sortWith screenRows_def)
  from Suc.prems have c: "length pool < n \<and> minY > yieldTo strict" by (auto split: if_splits)
  show ?case
  proof (cases "length pool' \<ge> n")
    case True
    then have "sl = take n pool'" using Suc.prems c by (simp add: Let_def minY'_def pool'_def)
    then show ?thesis using True sub by (auto dest: in_set_takeD)
  next
    case False
    then have "yieldLoop fuel rows strict n minY' pool' (pools @ [pool']) = Some (Inl sl, pools')"
      using Suc.prems c by (simp add: Let_def minY'_def pool'_def)
    then show ?thesis by (rule Suc.IH)
  qed
qed

lemma capLoop_slice:
  assumes "capLoop fuel rows strict n minY minC pool pools = Some (Inl sl, pools')"
  shows "length sl = n \<and> set sl \<subseteq> set rows"
  using assms
proof (induction fuel arbitrary: minC pool pools)
  case 0
  then show ?case by simp
next
  case (Suc fuel)
  define minC' where "minC' = max (capTo strict) (of_int \<lfloor>minC * capFactor strict\<rfloor>)"
  define pool' where "pool' = sortWith rankForDividend
      (screenRows rows (strict\<lparr> minYield := Some minY, minMktCap := Some minC' \<rparr>))"
  have sub: "set pool' \<subseteq> set rows" by (auto simp: pool'_def set_sortWith screenRows_def)
  from Suc.prems have c: "length pool < n \<and> minC > capTo strict" by (auto split: if_splits)
  show ?case
  proof (cases "length pool' \<ge> n")
    case True
    then have "sl = take n pool'" using Suc.prems c by (simp add: Let_def minC'_def pool'_def)
    then show ?thesis using True sub by (auto dest: in_set_takeD)
  next
    case False
    then have "capLoop fuel rows strict n minY minC' pool' (pools @ [pool']) = Some (Inl sl, pools')"
      using Suc.prems c by (simp add: Let_def minC'_def pool'_def)
    then show ?thesis by (rule Suc.IH)
  qed
qed

lemma fillSector_full:
  assumes run: "fillSectorWithFallback fuel rows strict n = Some fill"
    and enough: "n \<le> length (filter (priceGuard strict) rows)"
  shows "length fill = n \<and> set fill \<subseteq> set rows"
proof -
  let ?y0 = "case minYield strict of Some y \<Rightarrow> y | None \<Rightarrow> 0"
  let ?c0 = "case minMktCap strict of Some c \<Rightarrow> c | None \<Rightarrow> 0"
  let ?pool = "sortWith rankForDividend (screenRows rows strict)"
  obtain pools where tr: "fillSectorTrace fuel rows strict n = Some (fill, pools)"
    using run by (auto simp: fillSectorWithFallback_def)
  show ?thesis
  proof (cases "length ?pool \<ge> n")
    case True
    then have "fill = take n ?pool" using tr by (simp add: fillSectorTrace_def Let_def)
    then show ?thesis using True by (auto simp: set_sortWith screenRows_def dest!: in_set_takeD)
  next
    case False
    obtain out1 pools1 where yl: "yieldLoop fuel rows strict n ?y0 ?pool [?pool] = Some (out1, pools1)"
      using tr False by (cases "yieldLoop fuel rows strict n ?y0 ?pool [?pool]")
                        (auto simp: fillSectorTrace_def Let_def)
    show ?thesis
    proof (cases out1)
      case (Inl sl)
      then have "fill = sl" using tr False yl by (simp add: fillSectorTrace_def Let_def)
      then show ?thesis using yieldLoop_slice[of fuel rows strict n ?y0 ?pool "[?pool]" sl pools1] yl Inl
        by simp
    next
      case (Inr mp)
      obtain minY pool1 where mp: "mp = (minY, pool1)" by (cases mp)
      obtain out2 pools2 where cl: "capLoop fuel rows strict n minY ?c0 pool1 pools1 = Some (out2, pools2)"
        using tr False yl Inr mp
        by (cases "capLoop fuel rows strict n minY ?c0 pool1 pools1")
           (auto simp: fillSectorTrace_def Let_def)
      show ?thesis
      proof (cases out2)
        case (Inl sl)
        then have "fill = sl" using tr False yl \<open>out1 = Inr mp\<close> mp cl
          by (simp add: fillSectorTrace_def Let_def)
        then show ?thesis using capLoop_slice[of fuel rows strict n minY ?c0 pool1 pools1 sl pools2] cl Inl
          by simp
      next
        case (Inr mp2)
        let ?pool3 = "sortWith rankForDividend (filter (priceGuard strict) rows)"
        have "fill = take (min n (length ?pool3)) ?pool3"
          using tr False yl \<open>out1 = Inr mp\<close> mp cl Inr
          by (auto simp: fillSectorTrace_def Let_def split: prod.splits)
        then show ?thesis using enough
          by (auto simp: length_sortWith set_sortWith dest!: in_set_takeD)
      qed
    qed
  qed
qed

lemma eligible_priceGuard: "eligible strict r \<Longrightarrow> priceGuard strict r"
  unfolding eligible_def by (erule screenKeeps_priceGuard) simp

lemma eligible_count_le:
  "length (filter (eligible strict) rows) \<le> length (filter (priceGuard strict) rows)"
  by (rule length_filter_mono) (rule eligible_priceGuard)

lemma bumpSlots_sectors: "map bk_sector (bumpSlots u T bs) = map bk_sector bs"
  by (induction bs arbitrary: u) auto

lemma bumpSlots_sum:
  "u \<le> T \<Longrightarrow> T - u \<le> int (length bs) \<Longrightarrow>
   sum_list (map bk_slots (bumpSlots u T bs)) = sum_list (map bk_slots bs) + (T - u)"
proof (induction bs arbitrary: u)
  case Nil
  then show ?case by simp
next
  case (Cons b bs)
  show ?case
  proof (cases "u < T")
    case True
    have "sum_list (map bk_slots (bumpSlots (u + 1) T bs)) = sum_list (map bk_slots bs) + (T - (u + 1))"
      by (rule Cons.IH) (use True Cons.prems in simp_all)
    then show ?thesis using True by simp
  next
    case False
    then have "u = T" using Cons.prems(1) by simp
    then show ?thesis by simp
  qed
qed

lemma sum_sortWith: "sum_list (map f (sortWith cmp xs)) = sum_list (map (f :: 'a \<Rightarrow> int) xs)"
proof -
  have "mset (map f (sortWith cmp xs)) = mset (map f xs)" by (simp add: mset_sortWith)
  then show ?thesis by (metis sum_mset_sum_list)
qed

lemma slotSplit_alt:
  "slotSplit lc T sectors =
     bumpSlots (sum_list (map bk_slots (map (floorBucket T) sectors))) T
       (sortWith (bucketOrder lc) (map (floorBucket T) sectors))"
proof -
  have "(\<lambda>(sec, w). let exact = real_of_int T * w
                     in \<lparr> bk_sector = sec, bk_slots = \<lfloor>exact\<rfloor>, bk_frac = exact - of_int \<lfloor>exact\<rfloor> \<rparr>)
        = floorBucket T"
    by (auto simp: floorBucket_def fun_eq_iff)
  then show ?thesis by (simp add: slotSplit_def Let_def)
qed

lemma floors_bounds:
  "real_of_int (sum_list (map bk_slots (map (floorBucket T) xs))) \<le> real_of_int T * sum_list (map snd xs) \<and>
   real_of_int T * sum_list (map snd xs) - real_of_int (sum_list (map bk_slots (map (floorBucket T) xs)))
     \<le> real (length xs)"
proof (induction xs)
  case Nil
  then show ?case by simp
next
  case (Cons x xs)
  define S where "S = sum_list (map bk_slots (map (floorBucket T) xs))"
  define W where "W = sum_list (map snd xs)"
  have a: "real_of_int \<lfloor>real_of_int T * snd x\<rfloor> \<le> real_of_int T * snd x" by (rule of_int_floor_le)
  have b: "real_of_int T * snd x - real_of_int \<lfloor>real_of_int T * snd x\<rfloor> \<le> 1" by linarith
  have s: "bk_slots (floorBucket T x) = \<lfloor>real_of_int T * snd x\<rfloor>"
    by (simp add: floorBucket_def Let_def)
  have l: "sum_list (map bk_slots (map (floorBucket T) (x # xs))) = \<lfloor>real_of_int T * snd x\<rfloor> + S"
    unfolding S_def using s by simp
  have r: "real_of_int T * sum_list (map snd (x # xs)) = real_of_int T * snd x + real_of_int T * W"
    unfolding W_def by (simp add: algebra_simps)
  have ih: "real_of_int S \<le> real_of_int T * W" "real_of_int T * W - real_of_int S \<le> real (length xs)"
    using Cons unfolding S_def W_def by simp_all
  have "real_of_int (\<lfloor>real_of_int T * snd x\<rfloor> + S) \<le> real_of_int T * snd x + real_of_int T * W"
    using ih(1) a unfolding of_int_add by linarith
  moreover have "real_of_int T * snd x + real_of_int T * W - real_of_int (\<lfloor>real_of_int T * snd x\<rfloor> + S)
        \<le> real (length (x # xs))"
    using ih(2) b unfolding of_int_add length_Cons of_nat_Suc by linarith
  ultimately show ?case unfolding l r by blast
qed

lemma slotSplit_sectors: "mset (map bk_sector (slotSplit lc T sectors)) = mset (map fst sectors)"
proof -
  have e: "map bk_sector (map (floorBucket T) sectors) = map fst sectors"
    by (induction sectors) (simp_all add: floorBucket_def Let_def)
  have "mset (map bk_sector (slotSplit lc T sectors)) = mset (map bk_sector (map (floorBucket T) sectors))"
    unfolding slotSplit_alt bumpSlots_sectors by (simp only: mset_map mset_sortWith)
  also have "\<dots> = mset (map fst sectors)" by (simp only: e)
  finally show ?thesis .
qed

lemma slotSplit_total:
  assumes "sum_list (map snd sectors) = 1"
  shows "sum_list (map bk_slots (slotSplit lc T sectors)) = T"
proof -
  let ?fl = "map (floorBucket T) sectors"
  let ?used = "sum_list (map bk_slots ?fl)"
  from floors_bounds[of T sectors] assms
  have "real_of_int ?used \<le> real_of_int T" and "real_of_int T - real_of_int ?used \<le> real (length sectors)"
    by simp_all
  then have u: "?used \<le> T" and k: "T - ?used \<le> int (length sectors)" by linarith+
  have "sum_list (map bk_slots (slotSplit lc T sectors)) =
        sum_list (map bk_slots (sortWith (bucketOrder lc) ?fl)) + (T - ?used)"
    unfolding slotSplit_alt by (rule bumpSlots_sum[OF u]) (use k in \<open>simp add: length_sortWith\<close>)
  also have "\<dots> = ?used + (T - ?used)" by (simp add: sum_sortWith)
  finally show ?thesis by simp
qed

lemma sum_list_divide: "sum_list (map (\<lambda>x. f x / (c :: real)) xs) = sum_list (map f xs) / c"
  by (induction xs) (simp_all add: add_divide_distrib)

lemma normalizeWeights_keys: "map fst (normalizeWeights w) = map fst w"
  by (induction w) (auto simp: normalizeWeights_def Let_def split: prod.splits)

lemma sum_nonneg_pos:
  assumes "\<forall>(s, w) \<in> set sw. (0 :: real) \<le> w" "\<exists>(s, w) \<in> set sw. 0 < w"
  shows "0 < sum_list (map snd sw)"
  using assms
proof (induction sw)
  case Nil
  then show ?case by simp
next
  case (Cons x xs)
  have nn: "0 \<le> sum_list (map snd xs)" using Cons.prems(1) by (intro sum_list_nonneg) auto
  show ?case
  proof (cases "0 < snd x")
    case True
    then show ?thesis using nn by simp
  next
    case False
    then have "\<exists>(s, w) \<in> set xs. 0 < w" using Cons.prems(2) by auto
    moreover have "\<forall>(s, w) \<in> set xs. 0 \<le> w" using Cons.prems(1) by auto
    ultimately have "0 < sum_list (map snd xs)" by (rule Cons.IH[rotated])
    moreover have "0 \<le> snd x" using Cons.prems(1) by auto
    ultimately show ?thesis by simp
  qed
qed

lemma normalizeWeights_sum:
  assumes "\<forall>(s, w) \<in> set sw. (0 :: real) \<le> w" "\<exists>(s, w) \<in> set sw. 0 < w"
  shows "sum_list (map snd (normalizeWeights sw)) = 1"
    and "\<forall>(s, w) \<in> set (normalizeWeights sw). 0 \<le> w"
proof -
  let ?sum = "sum_list (map snd sw)"
  have pos: "0 < ?sum" by (rule sum_nonneg_pos[OF assms])
  then have nw: "normalizeWeights sw = map (\<lambda>(k, v). (k, v / ?sum)) sw"
    by (simp add: normalizeWeights_def Let_def)
  have "map snd (map (\<lambda>(k, v). (k, v / ?sum)) sw) = map (\<lambda>x. snd x / ?sum) sw"
    by (induction sw) auto
  then have "sum_list (map snd (normalizeWeights sw)) = ?sum / ?sum"
    unfolding nw by (simp only: sum_list_divide)
  then show "sum_list (map snd (normalizeWeights sw)) = 1" using pos by simp
  show "\<forall>(s, w) \<in> set (normalizeWeights sw). 0 \<le> w"
    unfolding nw using assms(1) pos by auto
qed

lemma positive_part_sum:
  "\<forall>(s, w) \<in> set ws. (0 :: real) \<le> w \<Longrightarrow>
   sum_list (map snd (filter (\<lambda>(s, w). w > 0) ws)) = sum_list (map snd ws)"
  by (induction ws) (auto simp: not_less)

lemma weightOf_sectors:
  assumes "distinct (map fst ws)" "set xs \<subseteq> set ws"
  shows "sum_list (map (weightOf ws) (map fst xs)) = sum_list (map snd xs)"
proof -
  have "\<And>x. x \<in> set xs \<Longrightarrow> weightOf ws (fst x) = snd x"
  proof -
    fix x assume "x \<in> set xs"
    then have "(fst x, snd x) \<in> set ws" using assms(2) by auto
    then have "map_of ws (fst x) = Some (snd x)" using assms(1) by (rule map_of_is_SomeI[rotated])
    then show "weightOf ws (fst x) = snd x" by (simp add: weightOf_def)
  qed
  then have "map (\<lambda>x. weightOf ws (fst x)) xs = map snd xs" by (intro map_cong) simp_all
  moreover have "map (weightOf ws) (map fst xs) = map (\<lambda>x. weightOf ws (fst x)) xs" by simp
  ultimately show ?thesis by (simp only:)
qed

lemma chooseFills_full:
  assumes "distinct (map bk_sector bs)"
    and "\<forall>b\<in>set bs. 0 < bk_slots b \<and>
           nat (bk_slots b) \<le> length (filter (priceGuard strict) (filter (\<lambda>r. sectorOf r = bk_sector b) base))"
    and t: "0 < yieldStep strict" "capFactor strict < 1" "0 \<le> capTo strict" "fuel \<ge> enoughFuel strict"
  shows "\<exists>fills. chooseFills fuel base strict bs = Some fills \<and>
           int (length fills) = sum_list (map bk_slots bs) \<and>
           (\<forall>r\<in>set fills. sectorOf r \<in> bk_sector ` set bs) \<and>
           (\<forall>b\<in>set bs. length (filter (\<lambda>r. sectorOf r = bk_sector b) fills) = nat (bk_slots b))"
  using assms(1,2)
proof (induction bs)
  case Nil
  then show ?case by simp
next
  case (Cons b bs)
  let ?rows = "filter (\<lambda>r. sectorOf r = bk_sector b) base"
  have pos: "0 < bk_slots b"
    and en: "nat (bk_slots b) \<le> length (filter (priceGuard strict) ?rows)"
    using Cons.prems(2) by simp_all
  have "fillSectorWithFallback fuel ?rows strict (nat (bk_slots b)) \<noteq> None"
    using fillSectorTrace_fuel[OF t, of ?rows "nat (bk_slots b)"]
    by (simp add: fillSectorWithFallback_def)
  then obtain fill where f: "fillSectorWithFallback fuel ?rows strict (nat (bk_slots b)) = Some fill"
    by auto
  from fillSector_full[OF f en] have fl: "length fill = nat (bk_slots b)" and fs: "set fill \<subseteq> set ?rows"
    by simp_all
  then have fsec: "\<forall>r\<in>set fill. sectorOf r = bk_sector b" by auto
  from Cons.IH obtain fills where
    c: "chooseFills fuel base strict bs = Some fills" and
    l: "int (length fills) = sum_list (map bk_slots bs)" and
    s: "\<forall>r\<in>set fills. sectorOf r \<in> bk_sector ` set bs" and
    k: "\<forall>b\<in>set bs. length (filter (\<lambda>r. sectorOf r = bk_sector b) fills) = nat (bk_slots b)"
    using Cons.prems by auto
  have nb: "bk_sector b \<notin> bk_sector ` set bs" using Cons.prems(1) by auto
  have "\<And>r. r \<in> set fills \<Longrightarrow> sectorOf r \<noteq> bk_sector b"
  proof
    fix r assume "r \<in> set fills" "sectorOf r = bk_sector b"
    then have "bk_sector b \<in> bk_sector ` set bs" using s by metis
    then show False using nb by simp
  qed
  then have e1: "filter (\<lambda>r. sectorOf r = bk_sector b) fills = []"
    by (simp add: filter_empty_conv)
  have e2: "filter (\<lambda>r. sectorOf r = bk_sector b) fill = fill"
    using fsec by (simp add: filter_id_conv)
  have e3: "\<And>b'. b' \<in> set bs \<Longrightarrow> filter (\<lambda>r. sectorOf r = bk_sector b') fill = []"
    using fsec nb by (auto simp: filter_empty_conv)
  have "chooseFills fuel base strict (b # bs) = Some (fill @ fills)"
    using pos f c by simp
  moreover have "int (length (fill @ fills)) = sum_list (map bk_slots (b # bs))"
    using fl l pos by simp
  moreover have "\<forall>r\<in>set (fill @ fills). sectorOf r \<in> bk_sector ` set (b # bs)"
    using fsec s by auto
  moreover have "\<forall>b'\<in>set (b # bs). length (filter (\<lambda>r. sectorOf r = bk_sector b') (fill @ fills)) = nat (bk_slots b')"
    using e1 e2 e3 fl k by auto
  ultimately show ?case by blast
qed

lemma allocation_dollars: "al_dollars (allocationOf s p r) = p"
  by (simp add: allocationOf_def)

lemma sectorAllocations_full:
  assumes "0 < bk_slots b" "length (filter (\<lambda>r. sectorOf r = bk_sector b) chosen) = nat (bk_slots b)"
  shows "sum_list (map al_dollars (sectorAllocations amount weights chosen b)) =
           amount * weightOf weights (bk_sector b)"
    and "length (sectorAllocations amount weights chosen b) = nat (bk_slots b)"
proof -
  let ?names = "filter (\<lambda>r. sectorOf r = bk_sector b) chosen"
  let ?p = "amount * weightOf weights (bk_sector b) / real (length ?names)"
  have tk: "take (nat (bk_slots b)) ?names = ?names" using assms(2) by simp
  have ne: "?names \<noteq> []" using assms by auto
  have sa: "sectorAllocations amount weights chosen b = map (allocationOf (bk_sector b) ?p) ?names"
    using assms(1) ne by (simp add: sectorAllocations_def tk Let_def)
  have "map al_dollars (map (allocationOf (bk_sector b) ?p) ?names) = map (\<lambda>r. ?p) ?names"
    by (simp add: allocation_dollars comp_def)
  then have "sum_list (map al_dollars (sectorAllocations amount weights chosen b)) = real (length ?names) * ?p"
    unfolding sa by (simp only: sum_list_triv)
  also have "\<dots> = amount * weightOf weights (bk_sector b)" using ne by simp
  finally show "sum_list (map al_dollars (sectorAllocations amount weights chosen b)) =
           amount * weightOf weights (bk_sector b)" .
  show "length (sectorAllocations amount weights chosen b) = nat (bk_slots b)"
    unfolding sa using assms(2) by simp
qed

lemma sum_concat_map:
  "sum_list (map f (concat (map g bs))) = sum_list (map (\<lambda>b. sum_list (map f (g b))) bs)"
  by (induction bs) simp_all

lemma length_concat_map:
  "length (concat (map g bs)) = sum_list (map (\<lambda>b. length (g b)) bs)"
  by (induction bs) simp_all

lemma sum_nat_slots:
  "\<forall>b\<in>set bs. 0 < bk_slots b \<Longrightarrow> int (sum_list (map (\<lambda>b. nat (bk_slots b)) bs)) = sum_list (map bk_slots bs)"
  by (induction bs) simp_all

text \<open>
  Where the amount is conserved. Let the sector weights be non-negative with a positive one, the fallback
  tuning relax (positive yield step, cap factor below 1, cap target not negative) and the fuel
  suffice. If every positively weighted sector is assigned at least one slot and has at least as
  many eligible (price-valid, non-excluded) candidates as slots, then
  \<^verbatim>\<open>buildPortfolioSectorBalanced\<close> returns, the dollars of the returned allocations sum to
  \<^verbatim>\<open>opts.amount\<close>, and their number is \<^verbatim>\<open>max(1, opts.n)\<close>.
\<close>

lemma sector_allocation_conserved:
  assumes W1: "\<forall>(s, w) \<in> set sectorWeights. 0 \<le> w"
    and W2: "\<exists>(s, w) \<in> set sectorWeights. 0 < w"
    and W3: "distinct (map fst sectorWeights)"
    and S1: "\<forall>b \<in> set (slotSplit localeCompare (max 1 (opt_n opts))
                         (filter (\<lambda>(s, w). w > 0) (normalizeWeights sectorWeights))).
               0 < bk_slots b \<and>
               nat (bk_slots b) \<le> length (filter (eligible (strictOf opts))
                                        (filter (\<lambda>r. sectorOf r = bk_sector b) (uniqByTicker rows)))"
    and tuning: "0 < yieldStep (strictOf opts)" "capFactor (strictOf opts) < 1" "0 \<le> capTo (strictOf opts)"
    and fuel: "enoughFuel (strictOf opts) \<le> fuel"
  shows "\<exists>allocs. buildPortfolioSectorBalanced localeCompare fuel rows opts sectorWeights = Some allocs \<and>
           sum_list (map al_dollars allocs) = opt_amount opts \<and>
           int (length allocs) = max 1 (opt_n opts)"
proof -
  define weights where "weights = normalizeWeights sectorWeights"
  define base where "base = uniqByTicker rows"
  define sectors where "sectors = filter (\<lambda>(s, w). w > 0) weights"
  define T where "T = max 1 (opt_n opts)"
  define buckets where "buckets = slotSplit localeCompare T sectors"
  define strict where "strict = strictOf opts"
  define amount where "amount = opt_amount opts"
  have T1: "1 \<le> T" by (simp add: T_def)
  have wsum: "sum_list (map snd weights) = 1" and wnn: "\<forall>(s, w) \<in> set weights. 0 \<le> w"
    unfolding weights_def by (rule normalizeWeights_sum[OF W1 W2])+
  have wdist: "distinct (map fst weights)" unfolding weights_def normalizeWeights_keys by (rule W3)
  have ssum: "sum_list (map snd sectors) = 1"
    unfolding sectors_def using positive_part_sum[OF wnn] wsum by simp
  then have sne: "sectors \<noteq> []" by auto
  have total: "sum_list (map bk_slots buckets) = T"
    unfolding buckets_def by (rule slotSplit_total[OF ssum])
  have bsec: "mset (map bk_sector buckets) = mset (map fst sectors)"
    unfolding buckets_def by (rule slotSplit_sectors)
  have "distinct (map fst sectors)" unfolding sectors_def using wdist by (simp add: distinct_map_filter)
  then have bdist: "distinct (map bk_sector buckets)"
    using bsec by (metis mset_eq_imp_distinct_iff)
  have S1': "\<forall>b\<in>set buckets. 0 < bk_slots b \<and>
      nat (bk_slots b) \<le> length (filter (priceGuard strict) (filter (\<lambda>r. sectorOf r = bk_sector b) base))"
  proof
    fix b assume "b \<in> set buckets"
    then have "0 < bk_slots b" and "nat (bk_slots b) \<le> length (filter (eligible strict)
                                        (filter (\<lambda>r. sectorOf r = bk_sector b) base))"
      using S1 unfolding buckets_def T_def sectors_def weights_def strict_def base_def by blast+
    then show "0 < bk_slots b \<and>
      nat (bk_slots b) \<le> length (filter (priceGuard strict) (filter (\<lambda>r. sectorOf r = bk_sector b) base))"
      using eligible_count_le[of strict "filter (\<lambda>r. sectorOf r = bk_sector b) base"] by linarith
  qed
  have pos: "\<forall>b\<in>set buckets. 0 < bk_slots b" using S1' by blast
  from chooseFills_full[OF bdist S1' tuning[folded strict_def] fuel[folded strict_def]]
  obtain fills where
    c: "chooseFills fuel base strict buckets = Some fills" and
    l: "int (length fills) = sum_list (map bk_slots buckets)" and
    k: "\<forall>b\<in>set buckets. length (filter (\<lambda>r. sectorOf r = bk_sector b) fills) = nat (bk_slots b)"
    by blast
  have lenT: "int (length fills) = T" using l total by simp
  then have bf: "backfill base strict T fills = fills" by (simp add: backfill_def Let_def)
  have fne: "fills \<noteq> []" using lenT T1 by auto
  define allocs where "allocs = concat (map (sectorAllocations amount weights fills) buckets)"
  have each: "\<And>b. b \<in> set buckets \<Longrightarrow>
      sum_list (map al_dollars (sectorAllocations amount weights fills b)) = amount * weightOf weights (bk_sector b) \<and>
      length (sectorAllocations amount weights fills b) = nat (bk_slots b)"
    using sectorAllocations_full pos k by blast
  have "length allocs = sum_list (map (\<lambda>b. nat (bk_slots b)) buckets)"
    unfolding allocs_def length_concat_map using each by (intro arg_cong[where f = sum_list] map_cong) simp_all
  then have alen: "int (length allocs) = T" using sum_nat_slots[OF pos] total by simp
  have "sum_list (map al_dollars allocs) = sum_list (map (\<lambda>b. amount * weightOf weights (bk_sector b)) buckets)"
    unfolding allocs_def sum_concat_map using each by (intro arg_cong[where f = sum_list] map_cong) simp_all
  also have "\<dots> = amount * sum_list (map (weightOf weights) (map bk_sector buckets))"
    by (simp add: sum_list_const_mult comp_def)
  also have "sum_list (map (weightOf weights) (map bk_sector buckets)) =
             sum_list (map (weightOf weights) (map fst sectors))"
  proof -
    have "mset (map (weightOf weights) (map bk_sector buckets)) = mset (map (weightOf weights) (map fst sectors))"
      using bsec by (metis mset_map)
    then show ?thesis by (metis sum_mset_sum_list)
  qed
  also have "\<dots> = sum_list (map snd sectors)"
    by (rule weightOf_sectors[OF wdist]) (auto simp: sectors_def)
  finally have asum: "sum_list (map al_dollars allocs) = amount" using ssum by simp
  have pad: "padding amount T fills allocs = []" using alen by (simp add: padding_def)
  have "buildPortfolioSectorBalanced localeCompare fuel rows opts sectorWeights = Some allocs"
    unfolding buildPortfolioSectorBalanced_def Let_def
    using sne c bf fne pad alen
    by (simp add: weights_def[symmetric] base_def[symmetric] sectors_def[symmetric] T_def[symmetric]
          buckets_def[symmetric] strict_def[symmetric] amount_def[symmetric] allocs_def[symmetric])
  then show ?thesis using asum alen by (auto simp: amount_def T_def)
qed

lemma demo_slots:
  "slotSplit (\<lambda>a b. 0) (max 1 (opt_n (demoOpts 100 3)))
     (filter (\<lambda>(s, w). w > 0) (normalizeWeights [(''Tech'', 2), (''Utilities'', 1)])) =
   [\<lparr> bk_sector = ''Tech'', bk_slots = 2, bk_frac = 0 \<rparr>,
    \<lparr> bk_sector = ''Utilities'', bk_slots = 1, bk_frac = 0 \<rparr>]"
  by code_simp

lemma demo_candidates:
  "length (filter (eligible (strictOf (demoOpts 100 3)))
             (filter (\<lambda>r. sectorOf r = ''Tech'') (uniqByTicker demoRows))) = 3"
  "length (filter (eligible (strictOf (demoOpts 100 3)))
             (filter (\<lambda>r. sectorOf r = ''Utilities'') (uniqByTicker demoRows))) = 1"
  by code_simp+

lemma demo_tuning:
  "0 < yieldStep (strictOf (demoOpts a n))" "capFactor (strictOf (demoOpts a n)) < 1"
  "0 \<le> capTo (strictOf (demoOpts a n))" "enoughFuel (strictOf (demoOpts a n)) \<le> 5"
  by (simp_all add: strictOf_def demoOpts_def yieldStep_def capFactor_def capTo_def enoughFuel_def yieldTo_def)

lemma sector_allocation_conserved_example:
  "slotSplit (\<lambda>a b. 0) (max 1 (opt_n (demoOpts 100 3)))
     (filter (\<lambda>(s, w). w > 0) (normalizeWeights [(''Tech'', 2), (''Utilities'', 1)])) =
     [\<lparr> bk_sector = ''Tech'', bk_slots = 2, bk_frac = 0 \<rparr>,
      \<lparr> bk_sector = ''Utilities'', bk_slots = 1, bk_frac = 0 \<rparr>] \<and>
   length (filter (eligible (strictOf (demoOpts 100 3)))
             (filter (\<lambda>r. sectorOf r = ''Tech'') (uniqByTicker demoRows))) = 3 \<and>
   length (filter (eligible (strictOf (demoOpts 100 3)))
             (filter (\<lambda>r. sectorOf r = ''Utilities'') (uniqByTicker demoRows))) = 1 \<and>
   0 < yieldStep (strictOf (demoOpts 100 3)) \<and> capFactor (strictOf (demoOpts 100 3)) < 1 \<and>
   0 \<le> capTo (strictOf (demoOpts 100 3)) \<and> enoughFuel (strictOf (demoOpts 100 3)) \<le> 5 \<and>
   (\<exists>allocs. buildPortfolioSectorBalanced (\<lambda>a b. 0) 5 demoRows (demoOpts 100 3)
                [(''Tech'', 2), (''Utilities'', 1)] = Some allocs \<and>
             sum_list (map al_dollars allocs) = 100 \<and> length allocs = 3)"
proof -
  have w: "\<forall>(s, w) \<in> set [(''Tech'', 2 :: real), (''Utilities'', 1)]. 0 \<le> w"
    "\<exists>(s, w) \<in> set [(''Tech'', 2 :: real), (''Utilities'', 1)]. 0 < w"
    "distinct (map fst [(''Tech'', 2 :: real), (''Utilities'', 1)])"
    by simp_all
  have s: "\<forall>b \<in> set (slotSplit (\<lambda>a b. 0) (max 1 (opt_n (demoOpts 100 3)))
                  (filter (\<lambda>(s, w). w > 0) (normalizeWeights [(''Tech'', 2), (''Utilities'', 1)]))).
       0 < bk_slots b \<and>
       nat (bk_slots b) \<le> length (filter (eligible (strictOf (demoOpts 100 3)))
                                (filter (\<lambda>r. sectorOf r = bk_sector b) (uniqByTicker demoRows)))"
    unfolding demo_slots by (simp add: demo_candidates del: filter_filter)
  from sector_allocation_conserved[OF w s demo_tuning]
  obtain allocs where "buildPortfolioSectorBalanced (\<lambda>a b. 0) 5 demoRows (demoOpts 100 3)
                [(''Tech'', 2), (''Utilities'', 1)] = Some allocs"
    "sum_list (map al_dollars allocs) = opt_amount (demoOpts 100 3)"
    "int (length allocs) = max 1 (opt_n (demoOpts 100 3))"
    by blast
  then have "\<exists>allocs. buildPortfolioSectorBalanced (\<lambda>a b. 0) 5 demoRows (demoOpts 100 3)
                [(''Tech'', 2), (''Utilities'', 1)] = Some allocs \<and>
             sum_list (map al_dollars allocs) = 100 \<and> length allocs = 3"
    by (auto simp: demoOpts_def)
  then show ?thesis using demo_slots demo_candidates demo_tuning[of 100 3] by blast
qed

text \<open>
  C1. The dollars handed out differ from \<^verbatim>\<open>opts.amount\<close> (documented in the code as the
  total dollars to allocate) although every weighted sector has an eligible candidate. With equal
  weights for two sectors, four slots, three eligible technology names and one eligible utility,
  the utility takes its sector's half, two technology names share the other half, and the third
  technology name, backfilled, is padded with \<^verbatim>\<open>amount / totalSlots\<close> on top: 125 for an
  amount of 100, over four names (four is also min(n, eligible)). With weights 3 : 2 and one
  slot, the second sector gets no slot and its share of the amount is handed to nobody: 60 for
  an amount of 100, over one name.
\<close>

theorem sector_allocation_not_conserved:
  "length (filter (eligible (strictOf (demoOpts 100 4)))
             (filter (\<lambda>r. sectorOf r = ''Tech'') (uniqByTicker demoRows))) = 3 \<and>
   length (filter (eligible (strictOf (demoOpts 100 4)))
             (filter (\<lambda>r. sectorOf r = ''Utilities'') (uniqByTicker demoRows))) = 1 \<and>
   map_option (\<lambda>allocs. (sum_list (map al_dollars allocs), length allocs))
     (buildPortfolioSectorBalanced (\<lambda>a b. 0) 5 demoRows (demoOpts 100 4)
        [(''Tech'', 1), (''Utilities'', 1)]) = Some (125, 4) \<and>
   map_option (\<lambda>allocs. (sum_list (map al_dollars allocs), length allocs))
     (buildPortfolioSectorBalanced (\<lambda>a b. 0) 5 demoRows (demoOpts 100 1)
        [(''Tech'', 3), (''Utilities'', 2)]) = Some (60, 1)"
  by code_simp
end
